theory Spec2Isabelle
  imports Main "HOL-Library.Word" "HOL-Library.Monad_Syntax"
begin

section \<open>Go values, panics and errors\<close>

text \<open>
  The handlers of \<^verbatim>\<open>azurerm/resource_arm_network_security_group.go\<close> and
  \<^verbatim>\<open>azurerm/resource_arm_automation_account.go\<close> are embedded as HOL functions.
  Go's \<^verbatim>\<open>int\<close> is taken at its width on 64-bit targets, \<^verbatim>\<open>int32\<close> is a 32-bit word.
  A value of type \<^verbatim>\<open>interface{}\<close> is a \<open>val\<close>; the nil interface is the absence of
  a value (\<open>None\<close> where a \<open>val option\<close> is read).
  A run-time panic (a failed type assertion, a nil dereference, an index out of
  range) ends the plugin process: a function that can panic returns an option, and
  \<open>None\<close> is the panic.
\<close>

type_synonym go_int = "64 word"
type_synonym int32 = "32 word"

datatype val =
    VString string
  | VInt go_int
  | VList "val list"
  | VMap "string \<Rightarrow> val option"
  | VNil

datatype 'e fmtarg = AStr string | AErr 'e

text \<open>
  An \<^verbatim>\<open>error\<close> is either produced outside the modelled code (\<open>ErrorString\<close>: the SDK
  client, the host framework) or built by \<^verbatim>\<open>fmt.Errorf\<close> from a format string and its
  arguments.
\<close>

datatype error = ErrorString string | Errorf string "error fmtarg list"

text \<open>\<^verbatim>\<open>x.(string)\<close>, \<^verbatim>\<open>x.(int)\<close>, \<^verbatim>\<open>x.([]interface{})\<close>, \<^verbatim>\<open>x.(map[string]interface{})\<close>\<close>

fun assert_string :: "val option \<Rightarrow> string option" where
  "assert_string (Some (VString s)) = Some s"
| "assert_string _ = None"

fun assert_int :: "val option \<Rightarrow> go_int option" where
  "assert_int (Some (VInt i)) = Some i"
| "assert_int _ = None"

fun assert_list :: "val option \<Rightarrow> val list option" where
  "assert_list (Some (VList xs)) = Some xs"
| "assert_list _ = None"

fun assert_map :: "val option \<Rightarrow> (string \<Rightarrow> val option) option" where
  "assert_map (Some (VMap m)) = Some m"
| "assert_map _ = None"

text \<open>The conversions \<^verbatim>\<open>int32(x)\<close> (truncation) and \<^verbatim>\<open>int(y)\<close> (sign extension).\<close>

definition to_int32 :: "go_int \<Rightarrow> int32" where
  "to_int32 x = ucast x"

definition to_int :: "int32 \<Rightarrow> go_int" where
  "to_int y = scast y"

section \<open>The resource data and the SDK structures\<close>

text \<open>
  \<^verbatim>\<open>schema.ResourceData\<close>: the resource ID and the attributes. \<open>d_Get\<close> reads
  an attribute as the schema presents it, \<open>d_Set\<close> writes one, \<open>SetId\<close> writes the ID.
\<close>

record ResourceData =
  Id :: string
  attrs :: "string \<Rightarrow> val option"

definition d_Get :: "ResourceData \<Rightarrow> string \<Rightarrow> val option" where
  "d_Get d k = attrs d k"

definition d_Set :: "ResourceData \<Rightarrow> string \<Rightarrow> val \<Rightarrow> ResourceData" where
  "d_Set d k v = d\<lparr>attrs := (attrs d)(k \<mapsto> v)\<rparr>"

definition SetId :: "ResourceData \<Rightarrow> string \<Rightarrow> ResourceData" where
  "SetId d i = d\<lparr>Id := i\<rparr>"

text \<open>A \<^verbatim>\<open>*string\<close> handed to \<^verbatim>\<open>d.Set\<close>: a nil pointer is stored as nil.\<close>

definition ptr_val :: "string option \<Rightarrow> val" where
  "ptr_val p = (case p of None \<Rightarrow> VNil | Some s \<Rightarrow> VString s)"

text \<open>\<^verbatim>\<open>network.SecurityRulePropertiesFormat\<close> and \<^verbatim>\<open>network.SecurityRule\<close>, with the
  fields the code reads or writes; a pointer field is an option.\<close>

record SecurityRulePropertiesFormat =
  Description :: "string option"
  Protocol :: string
  SourcePortRange :: "string option"
  DestinationPortRange :: "string option"
  SourceAddressPrefix :: "string option"
  DestinationAddressPrefix :: "string option"
  Access :: string
  Priority :: "int32 option"
  Direction :: string

record SecurityRule =
  rule_Name :: "string option"
  rule_Properties :: "SecurityRulePropertiesFormat option"

section \<open>Flattening and expanding the security rules\<close>

text \<open>\<^verbatim>\<open>if p != nil { m[k] = *p }\<close>\<close>

definition set_if_present :: "(string \<Rightarrow> val option) \<Rightarrow> string \<Rightarrow> string option
    \<Rightarrow> (string \<Rightarrow> val option)" where
  "set_if_present m k p = (case p of None \<Rightarrow> m | Some s \<Rightarrow> m(k \<mapsto> VString s))"

text \<open>The body of the loop of \<^verbatim>\<open>flattenNetworkSecurityRules\<close> for one rule.\<close>

definition flattenNetworkSecurityRule :: "SecurityRule \<Rightarrow> val option" where
  "flattenNetworkSecurityRule rule =
     do {
       name \<leftarrow> rule_Name rule;
       let sgRule = [''name'' \<mapsto> VString name];
       case rule_Properties rule of
         None \<Rightarrow> Some (VMap sgRule)
       | Some props \<Rightarrow>
           do {
             let sgRule = set_if_present sgRule ''destination_address_prefix''
                            (DestinationAddressPrefix props);
             let sgRule = set_if_present sgRule ''destination_port_range''
                            (DestinationPortRange props);
             let sgRule = set_if_present sgRule ''source_address_prefix''
                            (SourceAddressPrefix props);
             let sgRule = set_if_present sgRule ''source_port_range'' (SourcePortRange props);
             priority \<leftarrow> Priority props;
             let sgRule = sgRule(''priority'' \<mapsto> VInt (to_int priority));
             let sgRule = sgRule(''access'' \<mapsto> VString (Access props));
             let sgRule = sgRule(''direction'' \<mapsto> VString (Direction props));
             let sgRule = sgRule(''protocol'' \<mapsto> VString (Protocol props));
             let sgRule = set_if_present sgRule ''description'' (Description props);
             Some (VMap sgRule)
           }
     }"

fun flatten_loop :: "SecurityRule list \<Rightarrow> val list \<Rightarrow> val list option" where
  "flatten_loop [] result = Some result"
| "flatten_loop (rule # rules) result =
     do {
       sgRule \<leftarrow> flattenNetworkSecurityRule rule;
       flatten_loop rules (result @ [sgRule])
     }"

definition flattenNetworkSecurityRules :: "SecurityRule list option \<Rightarrow> val list option" where
  "flattenNetworkSecurityRules rules =
     (case rules of None \<Rightarrow> Some [] | Some rs \<Rightarrow> flatten_loop rs [])"

text \<open>The body of the loop of \<^verbatim>\<open>expandAzureRmSecurityRules\<close> for one element.\<close>

definition expandAzureRmSecurityRule :: "val \<Rightarrow> SecurityRule option" where
  "expandAzureRmSecurityRule sgRaw =
     do {
       data \<leftarrow> assert_map (Some sgRaw);
       name \<leftarrow> assert_string (data ''name'');
       source_port_range \<leftarrow> assert_string (data ''source_port_range'');
       destination_port_range \<leftarrow> assert_string (data ''destination_port_range'');
       source_address_prefix \<leftarrow> assert_string (data ''source_address_prefix'');
       destination_address_prefix \<leftarrow> assert_string (data ''destination_address_prefix'');
       priority_int \<leftarrow> assert_int (data ''priority'');
       let priority = to_int32 priority_int;
       access \<leftarrow> assert_string (data ''access'');
       direction \<leftarrow> assert_string (data ''direction'');
       protocol \<leftarrow> assert_string (data ''protocol'');
       let properties = \<lparr>
             Description = None,
             Protocol = protocol,
             SourcePortRange = Some source_port_range,
             DestinationPortRange = Some destination_port_range,
             SourceAddressPrefix = Some source_address_prefix,
             DestinationAddressPrefix = Some destination_address_prefix,
             Access = access,
             Priority = Some priority,
             Direction = direction \<rparr>;
       v \<leftarrow> assert_string (data ''description'');
       let properties = (if v \<noteq> [] then properties\<lparr>Description := Some v\<rparr> else properties);
       Some \<lparr>rule_Name = Some name, rule_Properties = Some properties\<rparr>
     }"

fun expand_loop :: "val list \<Rightarrow> SecurityRule list \<Rightarrow> SecurityRule list option" where
  "expand_loop [] rules = Some rules"
| "expand_loop (sgRaw # sgRules) rules =
     do {
       rule \<leftarrow> expandAzureRmSecurityRule sgRaw;
       expand_loop sgRules (rules @ [rule])
     }"

text \<open>The result is the pair \<^verbatim>\<open>(rules, error)\<close> of the Go function.\<close>

definition expandAzureRmSecurityRules ::
    "ResourceData \<Rightarrow> (SecurityRule list \<times> error option) option" where
  "expandAzureRmSecurityRules d =
     do {
       sgRules \<leftarrow> assert_list (d_Get d ''security_rule'');
       rules \<leftarrow> expand_loop sgRules [];
       Some (rules, None)
     }"

subsection \<open>Well-formed rule configurations\<close>

text \<open>
  An element of the \<^verbatim>\<open>security_rule\<close> list is a map over the fields of the element
  schema (lines 43 to 107), each with a value of the field's type.
\<close>

definition security_rule_fields :: "string list" where
  "security_rule_fields =
     [''name'', ''description'', ''protocol'', ''source_port_range'',
      ''destination_port_range'', ''source_address_prefix'',
      ''destination_address_prefix'', ''access'', ''priority'', ''direction'']"

fun is_string :: "val option \<Rightarrow> bool" where
  "is_string (Some (VString s)) = True"
| "is_string _ = False"

fun is_nonempty_string :: "val option \<Rightarrow> bool" where
  "is_nonempty_string (Some (VString s)) = (s \<noteq> [])"
| "is_nonempty_string _ = False"

fun is_int :: "val option \<Rightarrow> bool" where
  "is_int (Some (VInt i)) = True"
| "is_int _ = False"

text \<open>An \<^verbatim>\<open>int\<close> whose value lies in the range of \<^verbatim>\<open>int32\<close>.\<close>

fun is_int32 :: "val option \<Rightarrow> bool" where
  "is_int32 (Some (VInt i)) = (- (2 ^ 31) \<le> sint i \<and> sint i < 2 ^ 31)"
| "is_int32 _ = False"

text \<open>Every field that \<^verbatim>\<open>expandAzureRmSecurityRules\<close> reads has a value of its type.\<close>

definition rule_typed :: "(string \<Rightarrow> val option) \<Rightarrow> bool" where
  "rule_typed data \<longleftrightarrow>
     is_string (data ''name'') \<and>
     is_string (data ''source_port_range'') \<and>
     is_string (data ''destination_port_range'') \<and>
     is_string (data ''source_address_prefix'') \<and>
     is_string (data ''destination_address_prefix'') \<and>
     is_int (data ''priority'') \<and>
     is_string (data ''access'') \<and>
     is_string (data ''direction'') \<and>
     is_string (data ''protocol'') \<and>
     is_string (data ''description'')"

text \<open>The fields of the map are those of the schema, each has a value of its type, and
  the description is not empty.\<close>

definition rule_config :: "(string \<Rightarrow> val option) \<Rightarrow> bool" where
  "rule_config data \<longleftrightarrow>
     dom data = set security_rule_fields \<and>
     rule_typed data \<and>
     is_nonempty_string (data ''description'')"

text \<open>Expanding the rules of \<open>d\<close> and flattening the result.\<close>

definition expand_then_flatten :: "ResourceData \<Rightarrow> val list option" where
  "expand_then_flatten d =
     do {
       (rules, sgErr) \<leftarrow> expandAzureRmSecurityRules d;
       flattenNetworkSecurityRules (Some rules)
     }"

section \<open>The SDK clients and the cloud\<close>

text \<open>
  \<^verbatim>\<open>autorest.Response\<close> embeds a \<^verbatim>\<open>*http.Response\<close>; its status code is kept, and
  \<open>None\<close> is the nil pointer. \<^verbatim>\<open>*map[string]*string\<close> is the type of the tags.
\<close>

record autorest_Response =
  http_Response :: "int option"

type_synonym tags = "(string \<Rightarrow> string option option) option"

record SecurityGroupPropertiesFormat =
  SecurityRules :: "SecurityRule list option"
  ProvisioningState :: "string option"

record SecurityGroup =
  sg_Response :: autorest_Response
  sg_ID :: "string option"
  sg_Name :: "string option"
  sg_Location :: "string option"
  sg_Tags :: tags
  sg_Properties :: "SecurityGroupPropertiesFormat option"

record Sku =
  sku_Name :: string

record AccountCreateOrUpdateProperties =
  acup_Sku :: "Sku option"

record AccountCreateOrUpdateParameters =
  param_Properties :: "AccountCreateOrUpdateProperties option"
  param_Location :: "string option"
  param_Tags :: tags

record Account =
  acc_Response :: autorest_Response
  acc_ID :: "string option"
  acc_Name :: "string option"
  acc_Location :: "string option"
  acc_Tags :: tags
  acc_Sku :: "Sku option"

text \<open>
  The cloud is a state \<open>'w\<close> that every client call reads and may change. A client is
  the record of its methods; the error channel of an asynchronous method is read at
  once, as the handlers do.
\<close>

record 'w SecurityGroupsClient =
  sgc_CreateOrUpdate :: "string \<Rightarrow> string \<Rightarrow> SecurityGroup \<Rightarrow> 'w \<Rightarrow> error option \<times> 'w"
  sgc_Get :: "string \<Rightarrow> string \<Rightarrow> string \<Rightarrow> 'w \<Rightarrow> (SecurityGroup \<times> error option) \<times> 'w"
  sgc_Delete :: "string \<Rightarrow> string \<Rightarrow> 'w \<Rightarrow> error option \<times> 'w"

record 'w AccountClient =
  ac_CreateOrUpdate :: "string \<Rightarrow> string \<Rightarrow> AccountCreateOrUpdateParameters \<Rightarrow> 'w
     \<Rightarrow> (Account \<times> error option) \<times> 'w"
  ac_Get :: "string \<Rightarrow> string \<Rightarrow> 'w \<Rightarrow> (Account \<times> error option) \<times> 'w"
  ac_Delete :: "string \<Rightarrow> string \<Rightarrow> 'w \<Rightarrow> (autorest_Response \<times> error option) \<times> 'w"

record 'w ArmClient =
  secGroupClient :: "'w SecurityGroupsClient"
  automationAccountClient :: "'w AccountClient"

text \<open>
  The effects of a handler are logged in program order: the API calls with their
  arguments, the named lock taken and released, and each provisioning state the
  polling loop has read.
\<close>

datatype api_call =
    SgCreateOrUpdate string string SecurityGroup
  | SgGet string string string
  | SgDelete string string
  | AccCreateOrUpdate string string AccountCreateOrUpdateParameters
  | AccGet string string
  | AccDelete string string

datatype event =
    Lock string string
  | Unlock string string
  | Call api_call
  | Refreshed string

record 'w sys =
  cloud :: 'w
  trace :: "event list"

definition log_event :: "event \<Rightarrow> 'w sys \<Rightarrow> 'w sys" where
  "log_event ev s = s\<lparr>trace := trace s @ [ev]\<rparr>"

text \<open>The API calls of a log, the events of a log other than those of the lock, and
  the provisioning states a log has read, in their order.\<close>

fun is_call :: "event \<Rightarrow> bool" where
  "is_call (Call c) = True"
| "is_call ev = False"

fun is_api_event :: "event \<Rightarrow> bool" where
  "is_api_event (Lock name resourceType) = False"
| "is_api_event (Unlock name resourceType) = False"
| "is_api_event ev = True"

fun polled :: "event list \<Rightarrow> string list" where
  "polled [] = []"
| "polled (Refreshed state # evs) = state # polled evs"
| "polled (ev # evs) = polled evs"

text \<open>The log of the refreshes of a group that have read the given states.\<close>

fun poll_rounds :: "string \<Rightarrow> string \<Rightarrow> string list \<Rightarrow> event list" where
  "poll_rounds resGroup name [] = []"
| "poll_rounds resGroup name (state # states) =
     Call (SgGet resGroup name []) # Refreshed state # poll_rounds resGroup name states"


definition sg_CreateOrUpdate :: "'w SecurityGroupsClient \<Rightarrow> string \<Rightarrow> string \<Rightarrow> SecurityGroup
    \<Rightarrow> 'w sys \<Rightarrow> error option \<times> 'w sys" where
  "sg_CreateOrUpdate client resGroup name sg s =
     (let (err, w) = sgc_CreateOrUpdate client resGroup name sg (cloud s)
      in (err, log_event (Call (SgCreateOrUpdate resGroup name sg)) (s\<lparr>cloud := w\<rparr>)))"

definition sg_Get :: "'w SecurityGroupsClient \<Rightarrow> string \<Rightarrow> string \<Rightarrow> string
    \<Rightarrow> 'w sys \<Rightarrow> (SecurityGroup \<times> error option) \<times> 'w sys" where
  "sg_Get client resGroup name expand s =
     (let (r, w) = sgc_Get client resGroup name expand (cloud s)
      in (r, log_event (Call (SgGet resGroup name expand)) (s\<lparr>cloud := w\<rparr>)))"

definition sg_Delete :: "'w SecurityGroupsClient \<Rightarrow> string \<Rightarrow> string
    \<Rightarrow> 'w sys \<Rightarrow> error option \<times> 'w sys" where
  "sg_Delete client resGroup name s =
     (let (err, w) = sgc_Delete client resGroup name (cloud s)
      in (err, log_event (Call (SgDelete resGroup name)) (s\<lparr>cloud := w\<rparr>)))"

definition acc_CreateOrUpdate :: "'w AccountClient \<Rightarrow> string \<Rightarrow> string
    \<Rightarrow> AccountCreateOrUpdateParameters \<Rightarrow> 'w sys \<Rightarrow> (Account \<times> error option) \<times> 'w sys" where
  "acc_CreateOrUpdate client resGroup name parameters s =
     (let (r, w) = ac_CreateOrUpdate client resGroup name parameters (cloud s)
      in (r, log_event (Call (AccCreateOrUpdate resGroup name parameters)) (s\<lparr>cloud := w\<rparr>)))"

definition acc_Get :: "'w AccountClient \<Rightarrow> string \<Rightarrow> string
    \<Rightarrow> 'w sys \<Rightarrow> (Account \<times> error option) \<times> 'w sys" where
  "acc_Get client resGroup name s =
     (let (r, w) = ac_Get client resGroup name (cloud s)
      in (r, log_event (Call (AccGet resGroup name)) (s\<lparr>cloud := w\<rparr>)))"

definition acc_Delete :: "'w AccountClient \<Rightarrow> string \<Rightarrow> string
    \<Rightarrow> 'w sys \<Rightarrow> (autorest_Response \<times> error option) \<times> 'w sys" where
  "acc_Delete client resGroup name s =
     (let (r, w) = ac_Delete client resGroup name (cloud s)
      in (r, log_event (Call (AccDelete resGroup name)) (s\<lparr>cloud := w\<rparr>)))"

text \<open>Successive \<open>Get\<close> calls for a group, starting in the cloud \<open>w\<close>, succeed and
  return the group with the given provisioning states, one after the other.\<close>

fun states_read :: "'w SecurityGroupsClient \<Rightarrow> string \<Rightarrow> string \<Rightarrow> 'w \<Rightarrow> string list \<Rightarrow> bool" where
  "states_read client resGroup name w [] = True"
| "states_read client resGroup name w (state # states) =
     (case sgc_Get client resGroup name [] w of
        ((resp, err), w') \<Rightarrow>
          err = None \<and>
          Option.bind (sg_Properties resp) ProvisioningState = Some state \<and>
          states_read client resGroup name w' states)"

section \<open>The provider's helpers and the host framework\<close>

text \<open>
  \<^verbatim>\<open>parseAzureResourceID\<close>, \<^verbatim>\<open>utils.ResponseWasNotFound\<close>, \<^verbatim>\<open>azureRMNormalizeLocation\<close>,
  \<^verbatim>\<open>expandTags\<close>, \<^verbatim>\<open>flattenAndSetTags\<close>, \<^verbatim>\<open>validateStringLength\<close>,
  \<^verbatim>\<open>validateNetworkSecurityRuleProtocol\<close> and \<^verbatim>\<open>ignoreCaseStateFunc\<close> are defined in other
  files of the provider. The handlers take them as parameters, in the record
  \<open>provider_env\<close>.
\<close>

record ResourceID =
  ResourceGroup :: string
  Path :: "string \<Rightarrow> string option"

type_synonym SchemaValidateFunc = "val \<Rightarrow> string \<Rightarrow> string list \<times> error list"
type_synonym SchemaDiffSuppressFunc = "string \<Rightarrow> string \<Rightarrow> string \<Rightarrow> ResourceData \<Rightarrow> bool"
type_synonym SchemaStateFunc = "val \<Rightarrow> string"

record provider_env =
  parseAzureResourceID :: "string \<Rightarrow> error + ResourceID"
  ResponseWasNotFound :: "autorest_Response \<Rightarrow> bool"
  azureRMNormalizeLocation :: "string \<Rightarrow> string"
  expandTags :: "(string \<Rightarrow> val option) \<Rightarrow> tags"
  flattenAndSetTags :: "ResourceData \<Rightarrow> tags \<Rightarrow> ResourceData"
  validateStringLength :: "nat \<Rightarrow> SchemaValidateFunc"
  validateNetworkSecurityRuleProtocol :: SchemaValidateFunc
  ignoreCaseStateFunc :: SchemaStateFunc

text \<open>\<^verbatim>\<open>m[k]\<close> on a \<^verbatim>\<open>map[string]string\<close>: the empty string for a missing key.\<close>

definition path_get :: "(string \<Rightarrow> string option) \<Rightarrow> string \<Rightarrow> string" where
  "path_get m k = (case m k of None \<Rightarrow> [] | Some v \<Rightarrow> v)"

text \<open>
  Modelled from the spec: \<^verbatim>\<open>azureRMLockByName\<close> and \<^verbatim>\<open>azureRMUnlockByName\<close> (the
  per-resource named lock) are not in these files. Taking and releasing the lock of a
  name and a resource type is logged; the blocking of a second holder is not modelled.
\<close>

definition azureRMLockByName :: "string \<Rightarrow> string \<Rightarrow> 'w sys \<Rightarrow> 'w sys" where
  "azureRMLockByName name resourceType s = log_event (Lock name resourceType) s"

definition azureRMUnlockByName :: "string \<Rightarrow> string \<Rightarrow> 'w sys \<Rightarrow> 'w sys" where
  "azureRMUnlockByName name resourceType s = log_event (Unlock name resourceType) s"

text \<open>
  \<^verbatim>\<open>resource.StateChangeConf\<close>. \<open>Refresh\<close> returns the triple of the Go function, and
  the durations are in seconds.
\<close>

record ('w, 'r) StateChangeConf =
  Pending :: "string list"
  Target :: "string list"
  Refresh :: "'w sys \<Rightarrow> (('r option \<times> string \<times> error option) \<times> 'w sys) option"
  Timeout :: nat
  MinTimeout :: nat

text \<open>
  Modelled from the spec: \<^verbatim>\<open>WaitForState\<close> of the host framework is not in these files.
  It polls a status until it reaches a terminal value or the timeout expires. Between two
  refreshes, and before the first, it sleeps \<open>MinTimeout\<close> seconds (one second at
  least); \<open>elapsed\<close> is the time slept so far, and the calls themselves take no time.
  When \<open>Timeout\<close> seconds have elapsed the wait ends with an error. Otherwise it calls
  \<open>Refresh\<close>: an error of the refresh ends the wait with that error; a state of
  \<open>Target\<close> ends it with success; a state of \<open>Pending\<close> polls again; any other state
  ends it with an error. Each state read is logged.
\<close>

definition poll_wait :: "('w, 'r) StateChangeConf \<Rightarrow> nat" where
  "poll_wait conf = max 1 (MinTimeout conf)"

function wait_loop :: "nat \<Rightarrow> ('w, 'r) StateChangeConf \<Rightarrow> 'w sys
    \<Rightarrow> (('r option \<times> error option) \<times> 'w sys) option" where
  "wait_loop elapsed conf s =
     (if Timeout conf \<le> elapsed
      then Some ((None, Some (ErrorString ''timeout while waiting for state'')), s)
      else
        do {
          ((res, currentState, err), s) \<leftarrow> Refresh conf s;
          case err of
            Some e \<Rightarrow> Some ((None, Some e), s)
          | None \<Rightarrow>
              (let s = log_event (Refreshed currentState) s
               in if currentState \<in> set (Target conf) then Some ((res, None), s)
                  else if currentState \<in> set (Pending conf)
                       then wait_loop (elapsed + poll_wait conf) conf s
                       else Some ((None, Some (ErrorString ''unexpected state'')), s))
        })"
  by pat_completeness auto
termination
  by (relation "measure (\<lambda>(elapsed, conf, s). Timeout conf - elapsed)")
    (auto simp: poll_wait_def)

declare wait_loop.simps [simp del]

definition WaitForState :: "('w, 'r) StateChangeConf \<Rightarrow> 'w sys
    \<Rightarrow> (('r option \<times> error option) \<times> 'w sys) option" where
  "WaitForState conf s = wait_loop (poll_wait conf) conf s"

section \<open>The network security group\<close>

text \<open>
  A handler \<^verbatim>\<open>func(d *schema.ResourceData, meta interface{}) error\<close> returns its error
  (\<open>None\<close> is the nil error) with the resource data and the system as it leaves them.
\<close>

type_synonym 'w handler =
  "ResourceData \<Rightarrow> 'w ArmClient \<Rightarrow> 'w sys \<Rightarrow> (error option \<times> ResourceData \<times> 'w sys) option"

definition networkSecurityGroupResourceName :: string where
  "networkSecurityGroupResourceName = ''azurerm_network_security_group''"

definition networkSecurityGroupStateRefreshFunc :: "'w SecurityGroupsClient \<Rightarrow> string \<Rightarrow> string
    \<Rightarrow> 'w sys \<Rightarrow> ((SecurityGroup option \<times> string \<times> error option) \<times> 'w sys) option" where
  "networkSecurityGroupStateRefreshFunc client resourceGroupName sgName s =
     (let ((res, err), s) = sg_Get client resourceGroupName sgName [] s
      in case err of
           Some e \<Rightarrow>
             Some ((None, [],
               Some (Errorf ''Error issuing read request in networkSecurityGroupStateRefreshFunc for NSG '%s' (RG: '%s'): %+v''
                 [AStr sgName, AStr resourceGroupName, AErr e])), s)
         | None \<Rightarrow>
             do {
               props \<leftarrow> sg_Properties res;
               state \<leftarrow> ProvisioningState props;
               Some ((Some res, state, None), s)
             })"

definition resourceArmNetworkSecurityGroupRead :: "provider_env \<Rightarrow> 'w handler" where
  "resourceArmNetworkSecurityGroupRead h d meta s =
     (let client = secGroupClient meta
      in case parseAzureResourceID h (Id d) of
           Inl err \<Rightarrow> Some (Some err, d, s)
         | Inr azureID \<Rightarrow>
             (let resGroup = ResourceGroup azureID;
                  name = path_get (Path azureID) ''networkSecurityGroups'';
                  ((resp, err), s) = sg_Get client resGroup name [] s
              in case err of
                   Some e \<Rightarrow>
                     if ResponseWasNotFound h (sg_Response resp)
                     then Some (None, SetId d [], s)
                     else Some (Some (Errorf
                       ''Error making Read request on Azure Network Security Group %q: %+v''
                       [AStr name, AErr e]), d, s)
                 | None \<Rightarrow>
                     do {
                       let d = d_Set d ''name'' (ptr_val (sg_Name resp));
                       let d = d_Set d ''resource_group_name'' (VString resGroup);
                       location \<leftarrow> sg_Location resp;
                       let d = d_Set d ''location'' (VString (azureRMNormalizeLocation h location));
                       d \<leftarrow> (case sg_Properties resp of
                              None \<Rightarrow> Some d
                            | Some props \<Rightarrow>
                                do {
                                  rules \<leftarrow> flattenNetworkSecurityRules (SecurityRules props);
                                  Some (d_Set d ''security_rule'' (VList rules))
                                });
                       let d = flattenAndSetTags h d (sg_Tags resp);
                       Some (None, d, s)
                     }))"

text \<open>The \<^verbatim>\<open>stateConf\<close> of lines 156 to 162.\<close>

definition nsgStateConf :: "'w SecurityGroupsClient \<Rightarrow> string \<Rightarrow> string
    \<Rightarrow> ('w, SecurityGroup) StateChangeConf" where
  "nsgStateConf client resGroup name =
     \<lparr> Pending = [''Updating'', ''Creating''],
       Target = [''Succeeded''],
       Refresh = networkSecurityGroupStateRefreshFunc client resGroup name,
       Timeout = 30 * 60,
       MinTimeout = 15 \<rparr>"

text \<open>The request of lines 132 to 139.\<close>

definition nsgRequest :: "provider_env \<Rightarrow> string \<Rightarrow> string \<Rightarrow> (string \<Rightarrow> val option)
    \<Rightarrow> SecurityRule list \<Rightarrow> SecurityGroup" where
  "nsgRequest h name location tags sgRules =
     \<lparr> sg_Response = \<lparr>http_Response = None\<rparr>,
       sg_ID = None,
       sg_Name = Some name,
       sg_Location = Some location,
       sg_Tags = expandTags h tags,
       sg_Properties = Some \<lparr>SecurityRules = Some sgRules, ProvisioningState = None\<rparr> \<rparr>"

text \<open>Lines 132 to 169 of \<^verbatim>\<open>resourceArmNetworkSecurityGroupCreate\<close>: the request, the
  call, the read-back, the wait and the final read.\<close>

definition nsgCreateOrUpdateAndWait :: "provider_env \<Rightarrow> ResourceData \<Rightarrow> 'w ArmClient \<Rightarrow> string
    \<Rightarrow> string \<Rightarrow> string \<Rightarrow> (string \<Rightarrow> val option) \<Rightarrow> SecurityRule list \<Rightarrow> 'w sys
    \<Rightarrow> (error option \<times> ResourceData \<times> 'w sys) option" where
  "nsgCreateOrUpdateAndWait h d meta name location resGroup tags sgRules s =
     (let client = secGroupClient meta;
          sg = nsgRequest h name location tags sgRules;
          (createErr, s) = sg_CreateOrUpdate client resGroup name sg s
      in case createErr of
           Some err \<Rightarrow> Some (Some err, d, s)
         | None \<Rightarrow>
             (let ((read, err), s) = sg_Get client resGroup name [] s
              in case err of
                   Some e \<Rightarrow> Some (Some e, d, s)
                 | None \<Rightarrow>
                     (case sg_ID read of
                        None \<Rightarrow>
                          Some (Some (Errorf
                            ''Cannot read Virtual Network %q (resource group %q) ID''
                            [AStr name, AStr resGroup]), d, s)
                      | Some read_ID \<Rightarrow>
                          do {
                            let stateConf = nsgStateConf client resGroup name;
                            ((res, waitErr), s) \<leftarrow> WaitForState stateConf s;
                            case waitErr of
                              Some e \<Rightarrow>
                                Some (Some (Errorf
                                  ''Error waiting for NSG (%q) to become available: %+v''
                                  [AStr name, AErr e]), d, s)
                            | None \<Rightarrow>
                                resourceArmNetworkSecurityGroupRead h (SetId d read_ID) meta s
                          })))"

text \<open>Lines 129 to 169: the lock is taken, and released when the handler returns.\<close>

definition nsgCreateLocked :: "provider_env \<Rightarrow> ResourceData \<Rightarrow> 'w ArmClient \<Rightarrow> string
    \<Rightarrow> string \<Rightarrow> string \<Rightarrow> (string \<Rightarrow> val option) \<Rightarrow> SecurityRule list \<Rightarrow> 'w sys
    \<Rightarrow> (error option \<times> ResourceData \<times> 'w sys) option" where
  "nsgCreateLocked h d meta name location resGroup tags sgRules s =
     do {
       let s = azureRMLockByName name networkSecurityGroupResourceName s;
       (err, d, s) \<leftarrow> nsgCreateOrUpdateAndWait h d meta name location resGroup tags sgRules s;
       Some (err, d, azureRMUnlockByName name networkSecurityGroupResourceName s)
     }"

definition resourceArmNetworkSecurityGroupCreate :: "provider_env \<Rightarrow> 'w handler" where
  "resourceArmNetworkSecurityGroupCreate h d meta s =
     do {
       name \<leftarrow> assert_string (d_Get d ''name'');
       location \<leftarrow> assert_string (d_Get d ''location'');
       resGroup \<leftarrow> assert_string (d_Get d ''resource_group_name'');
       tags \<leftarrow> assert_map (d_Get d ''tags'');
       (sgRules, sgErr) \<leftarrow> expandAzureRmSecurityRules d;
       case sgErr of
         Some e \<Rightarrow>
           Some (Some (Errorf ''Error Building list of Network Security Group Rules: %+v''
             [AErr e]), d, s)
       | None \<Rightarrow> nsgCreateLocked h d meta name location resGroup tags sgRules s
     }"

definition resourceArmNetworkSecurityGroupDelete :: "provider_env \<Rightarrow> 'w handler" where
  "resourceArmNetworkSecurityGroupDelete h d meta s =
     (let client = secGroupClient meta
      in case parseAzureResourceID h (Id d) of
           Inl err \<Rightarrow> Some (Some err, d, s)
         | Inr azureID \<Rightarrow>
             (let resGroup = ResourceGroup azureID;
                  name = path_get (Path azureID) ''networkSecurityGroups'';
                  (deleteErr, s) = sg_Delete client resGroup name s
              in Some (deleteErr, d, s)))"

section \<open>The automation account\<close>

definition flattenAndSetSku :: "ResourceData \<Rightarrow> Sku option \<Rightarrow> ResourceData option" where
  "flattenAndSetSku d sku =
     do {
       sk \<leftarrow> sku;
       let result = [''name'' \<mapsto> VString (sku_Name sk)];
       let results = [VMap result];
       Some (d_Set d ''sku'' (VList results))
     }"

text \<open>\<^verbatim>\<open>inputs[0]\<close> panics on an empty list.\<close>

definition expandSku :: "ResourceData \<Rightarrow> Sku option" where
  "expandSku d =
     do {
       inputs \<leftarrow> assert_list (d_Get d ''sku'');
       input0 \<leftarrow> (case inputs of [] \<Rightarrow> None | x # xs \<Rightarrow> Some x);
       input \<leftarrow> assert_map (Some input0);
       name \<leftarrow> assert_string (input ''name'');
       Some \<lparr>sku_Name = name\<rparr>
     }"

definition resourceArmAutomationAccountRead :: "provider_env \<Rightarrow> 'w handler" where
  "resourceArmAutomationAccountRead h d meta s =
     (let client = automationAccountClient meta
      in case parseAzureResourceID h (Id d) of
           Inl err \<Rightarrow> Some (Some err, d, s)
         | Inr azureID \<Rightarrow>
             (let resGroup = ResourceGroup azureID;
                  name = path_get (Path azureID) ''automationAccounts'';
                  ((resp, err), s) = acc_Get client resGroup name s
              in case err of
                   Some e \<Rightarrow>
                     if ResponseWasNotFound h (acc_Response resp)
                     then Some (None, SetId d [], s)
                     else Some (Some (Errorf
                       ''Error making Read request on AzureRM Automation Account '%s': %+v''
                       [AStr name, AErr e]), d, s)
                 | None \<Rightarrow>
                     do {
                       let d = d_Set d ''name'' (ptr_val (acc_Name resp));
                       location \<leftarrow> acc_Location resp;
                       let d = d_Set d ''location'' (VString (azureRMNormalizeLocation h location));
                       let d = d_Set d ''resource_group_name'' (VString resGroup);
                       d \<leftarrow> flattenAndSetSku d (acc_Sku resp);
                       let d = flattenAndSetTags h d (acc_Tags resp);
                       Some (None, d, s)
                     }))"

text \<open>The request that \<^verbatim>\<open>resourceArmAutomationAccountCreateUpdate\<close> builds (lines 69 to 76).\<close>

definition accountParameters :: "provider_env \<Rightarrow> string \<Rightarrow> (string \<Rightarrow> val option) \<Rightarrow> Sku
    \<Rightarrow> AccountCreateOrUpdateParameters" where
  "accountParameters h location tags sku =
     \<lparr> param_Properties = Some \<lparr>acup_Sku = Some sku\<rparr>,
       param_Location = Some location,
       param_Tags = expandTags h tags \<rparr>"

definition resourceArmAutomationAccountCreateUpdate :: "provider_env \<Rightarrow> 'w handler" where
  "resourceArmAutomationAccountCreateUpdate h d meta s =
     do {
       let client = automationAccountClient meta;
       name \<leftarrow> assert_string (d_Get d ''name'');
       location \<leftarrow> assert_string (d_Get d ''location'');
       resGroup \<leftarrow> assert_string (d_Get d ''resource_group_name'');
       tags \<leftarrow> assert_map (d_Get d ''tags'');
       sku \<leftarrow> expandSku d;
       let parameters = accountParameters h location tags sku;
       let ((created, err), s) = acc_CreateOrUpdate client resGroup name parameters s;
       case err of
         Some e \<Rightarrow> Some (Some e, d, s)
       | None \<Rightarrow>
           (let ((read, err), s) = acc_Get client resGroup name s
            in case err of
                 Some e \<Rightarrow> Some (Some e, d, s)
               | None \<Rightarrow>
                   (case acc_ID read of
                      None \<Rightarrow>
                        Some (Some (Errorf
                          ''Cannot read Automation Account '%s' (resource group %s) ID''
                          [AStr name, AStr resGroup]), d, s)
                    | Some read_ID \<Rightarrow>
                        resourceArmAutomationAccountRead h (SetId d read_ID) meta s))
     }"

definition resourceArmAutomationAccountDelete :: "provider_env \<Rightarrow> 'w handler" where
  "resourceArmAutomationAccountDelete h d meta s =
     (let client = automationAccountClient meta
      in case parseAzureResourceID h (Id d) of
           Inl err \<Rightarrow> Some (Some err, d, s)
         | Inr azureID \<Rightarrow>
             (let resGroup = ResourceGroup azureID;
                  name = path_get (Path azureID) ''automationAccounts'';
                  ((resp, err), s) = acc_Delete client resGroup name s
              in case err of
                   Some e \<Rightarrow>
                     if ResponseWasNotFound h resp
                     then Some (None, d, s)
                     else Some (Some (Errorf
                       ''Error issuing AzureRM delete request for Automation Account '%s': %+v''
                       [AStr name, AErr e]), d, s)
                 | None \<Rightarrow> Some (None, d, s)))"

section \<open>The resources and their schemas\<close>

text \<open>
  \<^verbatim>\<open>schema.Resource\<close> with its four handlers, and \<^verbatim>\<open>schema.Schema\<close> with the settings
  the element schemas of \<^verbatim>\<open>security_rule\<close> and \<^verbatim>\<open>sku\<close> use.
\<close>

record 'w Resource =
  Create :: "'w handler"
  Read :: "'w handler"
  Update :: "'w handler"
  Delete :: "'w handler"

definition resourceArmNetworkSecurityGroup :: "provider_env \<Rightarrow> 'w Resource" where
  "resourceArmNetworkSecurityGroup h =
     \<lparr> Create = resourceArmNetworkSecurityGroupCreate h,
       Read = resourceArmNetworkSecurityGroupRead h,
       Update = resourceArmNetworkSecurityGroupCreate h,
       Delete = resourceArmNetworkSecurityGroupDelete h \<rparr>"

definition resourceArmAutomationAccount :: "provider_env \<Rightarrow> 'w Resource" where
  "resourceArmAutomationAccount h =
     \<lparr> Create = resourceArmAutomationAccountCreateUpdate h,
       Read = resourceArmAutomationAccountRead h,
       Update = resourceArmAutomationAccountCreateUpdate h,
       Delete = resourceArmAutomationAccountDelete h \<rparr>"

datatype ValueType = TypeString | TypeInt

record Schema =
  sch_Type :: ValueType
  Required :: bool
  Optional :: bool
  Default :: "val option"
  ValidateFunc :: "SchemaValidateFunc option"
  StateFunc :: "SchemaStateFunc option"
  DiffSuppressFunc :: "SchemaDiffSuppressFunc option"

text \<open>\<^verbatim>\<open>strings.ToLower\<close>, on the ASCII letters.\<close>

definition ascii_upper :: string where
  "ascii_upper = ''ABCDEFGHIJKLMNOPQRSTUVWXYZ''"

definition ascii_lower :: string where
  "ascii_lower = ''abcdefghijklmnopqrstuvwxyz''"

definition to_lower_char :: "char \<Rightarrow> char" where
  "to_lower_char c = (case map_of (zip ascii_upper ascii_lower) c of None \<Rightarrow> c | Some l \<Rightarrow> l)"

definition ToLower :: "string \<Rightarrow> string" where
  "ToLower v = map to_lower_char v"

text \<open>
  Modelled from the spec: \<^verbatim>\<open>ignoreCaseDiffSuppressFunc\<close> is not in these files. Two
  values that are equal when letter case is ignored produce no diff.
\<close>

definition ignoreCaseDiffSuppressFunc :: SchemaDiffSuppressFunc where
  "ignoreCaseDiffSuppressFunc k old new d \<longleftrightarrow> ToLower old = ToLower new"

text \<open>
  Modelled from the spec: \<^verbatim>\<open>validation.StringInSlice\<close> and \<^verbatim>\<open>validation.IntBetween\<close> of
  the host framework are not in these files. \<open>StringInSlice valid ignoreCase\<close> accepts
  a string that is one of \<open>valid\<close>, in any letter case when \<open>ignoreCase\<close> is set;
  \<open>IntBetween lo hi\<close> accepts an integer of the closed interval. Each returns the
  warnings and the errors, one error when the value is refused.
\<close>

definition StringInSlice :: "string list \<Rightarrow> bool \<Rightarrow> SchemaValidateFunc" where
  "StringInSlice valid ignoreCase i k =
     (case i of
        VString v \<Rightarrow>
          if list_ex (\<lambda>str. v = str \<or> (ignoreCase \<and> ToLower v = ToLower str)) valid
          then ([], [])
          else ([], [Errorf ''expected %s to be one of %v, got %s'' [AStr k, AStr v]])
      | _ \<Rightarrow> ([], [Errorf ''expected type of %s to be string'' [AStr k]]))"

definition IntBetween :: "int \<Rightarrow> int \<Rightarrow> SchemaValidateFunc" where
  "IntBetween lo hi i k =
     (case i of
        VInt v \<Rightarrow>
          if sint v < lo \<or> hi < sint v
          then ([], [Errorf ''expected %s to be in the range (%d - %d), got %d'' [AStr k]])
          else ([], [])
      | _ \<Rightarrow> ([], [Errorf ''expected type of %s to be int'' [AStr k]]))"

text \<open>The constants of the SDK that the schemas name.\<close>

definition SecurityRuleAccessAllow :: string where "SecurityRuleAccessAllow = ''Allow''"
definition SecurityRuleAccessDeny :: string where "SecurityRuleAccessDeny = ''Deny''"
definition SecurityRuleDirectionInbound :: string where "SecurityRuleDirectionInbound = ''Inbound''"
definition SecurityRuleDirectionOutbound :: string where "SecurityRuleDirectionOutbound = ''Outbound''"
definition automation_Basic :: string where "automation_Basic = ''Basic''"

definition string_field :: Schema where
  "string_field =
     \<lparr> sch_Type = TypeString, Required = True, Optional = False, Default = None,
       ValidateFunc = None, StateFunc = None, DiffSuppressFunc = None \<rparr>"

text \<open>The element schema of \<^verbatim>\<open>security_rule\<close> (lines 43 to 107).\<close>

definition securityRuleSchema :: "provider_env \<Rightarrow> string \<Rightarrow> Schema option" where
  "securityRuleSchema h =
     [ ''name'' \<mapsto> string_field,
       ''description'' \<mapsto> string_field
          \<lparr> Required := False, Optional := True,
            ValidateFunc := Some (validateStringLength h 140) \<rparr>,
       ''protocol'' \<mapsto> string_field
          \<lparr> ValidateFunc := Some (validateNetworkSecurityRuleProtocol h),
            StateFunc := Some (ignoreCaseStateFunc h) \<rparr>,
       ''source_port_range'' \<mapsto> string_field,
       ''destination_port_range'' \<mapsto> string_field,
       ''source_address_prefix'' \<mapsto> string_field,
       ''destination_address_prefix'' \<mapsto> string_field,
       ''access'' \<mapsto> string_field
          \<lparr> ValidateFunc := Some (StringInSlice
              [SecurityRuleAccessAllow, SecurityRuleAccessDeny] True),
            DiffSuppressFunc := Some ignoreCaseDiffSuppressFunc \<rparr>,
       ''priority'' \<mapsto> string_field
          \<lparr> sch_Type := TypeInt, ValidateFunc := Some (IntBetween 100 4096) \<rparr>,
       ''direction'' \<mapsto> string_field
          \<lparr> ValidateFunc := Some (StringInSlice
              [SecurityRuleDirectionInbound, SecurityRuleDirectionOutbound] True),
            DiffSuppressFunc := Some ignoreCaseDiffSuppressFunc \<rparr> ]"

text \<open>The element schema of \<^verbatim>\<open>sku\<close> of the automation account (lines 39 to 49).\<close>

definition skuSchema :: "string \<Rightarrow> Schema option" where
  "skuSchema =
     [ ''name'' \<mapsto> string_field
          \<lparr> Required := False, Optional := True,
            Default := Some (VString automation_Basic),
            DiffSuppressFunc := Some ignoreCaseDiffSuppressFunc,
            ValidateFunc := Some (StringInSlice [automation_Basic] True) \<rparr> ]"

text \<open>What the host does with a field's schema: whether a change from \<open>old\<close> to \<open>new\<close>
  is suppressed, and whether a value passes the field's validation.\<close>

definition suppresses_diff :: "Schema option \<Rightarrow> string \<Rightarrow> string \<Rightarrow> string \<Rightarrow> ResourceData \<Rightarrow> bool" where
  "suppresses_diff sch k old new d =
     (case sch of
        None \<Rightarrow> False
      | Some f \<Rightarrow> (case DiffSuppressFunc f of None \<Rightarrow> False | Some g \<Rightarrow> g k old new d))"

definition validation_errors :: "Schema option \<Rightarrow> val \<Rightarrow> string \<Rightarrow> error list" where
  "validation_errors sch v k =
     (case sch of
        None \<Rightarrow> []
      | Some f \<Rightarrow> (case ValidateFunc f of None \<Rightarrow> [] | Some g \<Rightarrow> snd (g v k)))"

text \<open>Two strings that differ only in the case of their ASCII letters.\<close>

definition same_letter :: "char \<Rightarrow> char \<Rightarrow> bool" where
  "same_letter a b \<longleftrightarrow>
     a = b \<or> (a, b) \<in> set (zip ascii_upper ascii_lower) \<or> (b, a) \<in> set (zip ascii_upper ascii_lower)"

definition differ_only_in_case :: "string \<Rightarrow> string \<Rightarrow> bool" where
  "differ_only_in_case v w \<longleftrightarrow> list_all2 same_letter v w"

section \<open>Example configurations, clients and helpers\<close>

text \<open>
  Concrete inputs on which the theorems below are instantiated. The cloud of the
  examples is the number of client calls made so far; a client answers its \<open>Get\<close> calls
  from a script indexed by that number.
\<close>

definition example_rule :: "string \<Rightarrow> val option" where
  "example_rule =
     [ ''name'' \<mapsto> VString ''test123'',
       ''description'' \<mapsto> VString ''allow tcp'',
       ''priority'' \<mapsto> VInt 100,
       ''direction'' \<mapsto> VString ''Inbound'',
       ''access'' \<mapsto> VString ''Allow'',
       ''protocol'' \<mapsto> VString ''Tcp'',
       ''source_port_range'' \<mapsto> VString ''*'',
       ''destination_port_range'' \<mapsto> VString ''*'',
       ''source_address_prefix'' \<mapsto> VString ''*'',
       ''destination_address_prefix'' \<mapsto> VString ''*'' ]"

text \<open>The same rule with the priority \<open>2 ^ 32 + 100\<close>.\<close>

definition wide_priority_rule :: "string \<Rightarrow> val option" where
  "wide_priority_rule = example_rule(''priority'' \<mapsto> VInt 4294967396)"

definition nsg_data :: "val list \<Rightarrow> ResourceData" where
  "nsg_data rules =
     \<lparr> Id = [],
       attrs = [ ''name'' \<mapsto> VString ''nsg1'',
                 ''location'' \<mapsto> VString ''westus'',
                 ''resource_group_name'' \<mapsto> VString ''rg1'',
                 ''tags'' \<mapsto> VMap Map.empty,
                 ''security_rule'' \<mapsto> VList rules ] \<rparr>"

definition account_data :: ResourceData where
  "account_data =
     \<lparr> Id = [],
       attrs = [ ''name'' \<mapsto> VString ''acct1'',
                 ''location'' \<mapsto> VString ''westus'',
                 ''resource_group_name'' \<mapsto> VString ''rg1'',
                 ''tags'' \<mapsto> VMap Map.empty,
                 ''sku'' \<mapsto> VList [VMap [''name'' \<mapsto> VString ''Basic'']] ] \<rparr>"

definition example_env :: provider_env where
  "example_env =
     \<lparr> parseAzureResourceID = (\<lambda>i.
         if i = [] then Inl (ErrorString ''cannot parse an empty ID'')
         else Inr \<lparr> ResourceGroup = ''rg1'',
                    Path = [ ''networkSecurityGroups'' \<mapsto> ''nsg1'',
                             ''automationAccounts'' \<mapsto> ''acct1'' ] \<rparr>),
       ResponseWasNotFound = (\<lambda>r. http_Response r = Some 404),
       azureRMNormalizeLocation = (\<lambda>l. l),
       expandTags = (\<lambda>t. Some Map.empty),
       flattenAndSetTags = (\<lambda>d t. d_Set d ''tags'' (VMap Map.empty)),
       validateStringLength = (\<lambda>n v k. ([], [])),
       validateNetworkSecurityRuleProtocol = (\<lambda>v k. ([], [])),
       ignoreCaseStateFunc = (\<lambda>v. []) \<rparr>"

definition example_group :: "string \<Rightarrow> SecurityGroup" where
  "example_group state =
     \<lparr> sg_Response = \<lparr>http_Response = Some 200\<rparr>,
       sg_ID = Some ''/subscriptions/0/resourceGroups/rg1/providers/Microsoft.Network/networkSecurityGroups/nsg1'',
       sg_Name = Some ''nsg1'',
       sg_Location = Some ''westus'',
       sg_Tags = None,
       sg_Properties = Some \<lparr>SecurityRules = Some [], ProvisioningState = Some state\<rparr> \<rparr>"

definition failed_group :: "int \<Rightarrow> SecurityGroup \<times> error option" where
  "failed_group status =
     (\<lparr> sg_Response = \<lparr>http_Response = Some status\<rparr>, sg_ID = None, sg_Name = None,
        sg_Location = None, sg_Tags = None, sg_Properties = None \<rparr>,
      Some (ErrorString ''the request failed''))"

definition example_account :: Account where
  "example_account =
     \<lparr> acc_Response = \<lparr>http_Response = Some 200\<rparr>,
       acc_ID = Some ''/subscriptions/0/resourceGroups/rg1/providers/Microsoft.Automation/automationAccounts/acct1'',
       acc_Name = Some ''acct1'',
       acc_Location = Some ''westus'',
       acc_Tags = None,
       acc_Sku = Some \<lparr>sku_Name = ''Basic''\<rparr> \<rparr>"

definition failed_account :: "int \<Rightarrow> Account \<times> error option" where
  "failed_account status =
     (\<lparr> acc_Response = \<lparr>http_Response = Some status\<rparr>, acc_ID = None, acc_Name = None,
        acc_Location = None, acc_Tags = None, acc_Sku = None \<rparr>,
      Some (ErrorString ''the request failed''))"

definition scripted_nsg_client :: "(nat \<Rightarrow> SecurityGroup \<times> error option) \<Rightarrow> error option
    \<Rightarrow> nat SecurityGroupsClient" where
  "scripted_nsg_client gets deleted =
     \<lparr> sgc_CreateOrUpdate = (\<lambda>resGroup name sg w. (None, Suc w)),
       sgc_Get = (\<lambda>resGroup name expand w. (gets w, Suc w)),
       sgc_Delete = (\<lambda>resGroup name w. (deleted, Suc w)) \<rparr>"

definition scripted_account_client :: "(nat \<Rightarrow> Account \<times> error option)
    \<Rightarrow> autorest_Response \<times> error option \<Rightarrow> nat AccountClient" where
  "scripted_account_client gets deleted =
     \<lparr> ac_CreateOrUpdate = (\<lambda>resGroup name parameters w. ((example_account, None), Suc w)),
       ac_Get = (\<lambda>resGroup name w. (gets w, Suc w)),
       ac_Delete = (\<lambda>resGroup name w. (deleted, Suc w)) \<rparr>"

definition example_meta :: "(nat \<Rightarrow> SecurityGroup \<times> error option) \<Rightarrow> error option
    \<Rightarrow> (nat \<Rightarrow> Account \<times> error option) \<Rightarrow> autorest_Response \<times> error option
    \<Rightarrow> nat ArmClient" where
  "example_meta sg_gets sg_deleted acc_gets acc_deleted =
     \<lparr> secGroupClient = scripted_nsg_client sg_gets sg_deleted,
       automationAccountClient = scripted_account_client acc_gets acc_deleted \<rparr>"

text \<open>The group is \<open>Creating\<close> at the call 2, \<open>Updating\<close> at the call 3 and \<open>Succeeded\<close>
  from then on.\<close>

definition provisioning_script :: "nat \<Rightarrow> SecurityGroup \<times> error option" where
  "provisioning_script w =
     (example_group (if w = 2 then ''Creating'' else if w = 3 then ''Updating'' else ''Succeeded''),
      None)"

definition start :: "nat sys" where
  "start = \<lparr>cloud = 0, trace = []\<rparr>"

text \<open>Resource data as it is after a create: with the ID of the resource.\<close>

definition stored :: "ResourceData \<Rightarrow> ResourceData" where
  "stored d = d\<lparr>Id := ''/subscriptions/0/resourceGroups/rg1''\<rparr>"

text \<open>A client whose group is provisioned after two refreshes.\<close>

definition run_meta :: "nat ArmClient" where
  "run_meta = example_meta provisioning_script None (\<lambda>w. (example_account, None)) (\<lparr>http_Response = None\<rparr>, None)"





section \<open>Round trip of the security rules\<close>

text \<open>The conversion to \<^verbatim>\<open>int32\<close> and back keeps a value of the \<^verbatim>\<open>int32\<close> range.\<close>

lemma sint_to_int32:
  "sint (to_int32 p) = signed_take_bit 31 (sint p)"
proof -
  have "sint (ucast p :: 32 word) = signed_take_bit 31 (uint (ucast p :: 32 word))"
    by (simp add: sint_uint)
  also have "\<dots> = signed_take_bit 31 (take_bit 32 (uint p))"
    by (simp add: unsigned_ucast_eq)
  also have "\<dots> = signed_take_bit 31 (uint p)"
    by (simp add: signed_take_bit_take_bit)
  also have "\<dots> = signed_take_bit 31 (signed_take_bit 63 (uint p))"
    by (simp add: signed_take_bit_signed_take_bit)
  also have "\<dots> = signed_take_bit 31 (sint p)"
    by (simp add: sint_uint)
  finally show ?thesis by (simp add: to_int32_def)
qed

lemma sint_to_int: "sint (to_int y) = sint y"
  unfolding to_int_def by (rule sint_up_scast) (simp add: is_up)

lemma to_int_to_int32:
  assumes "- (2 ^ 31) \<le> sint p" "sint p < 2 ^ 31"
  shows "to_int (to_int32 p) = p"
proof -
  have "sint (to_int (to_int32 p)) = sint p"
    using assms by (simp add: sint_to_int sint_to_int32 signed_take_bit_int_eq_self)
  then show ?thesis by (simp add: signed_word_eqI)
qed

lemma is_string_E: "is_string v \<Longrightarrow> \<exists>s. v = Some (VString s)"
  by (cases v rule: is_string.cases) auto

lemma is_int32_E: "is_int32 v \<Longrightarrow> \<exists>i. v = Some (VInt i) \<and> - (2 ^ 31) \<le> sint i \<and> sint i < 2 ^ 31"
  by (cases v rule: is_int32.cases) auto

lemma is_nonempty_string_E: "is_nonempty_string v \<Longrightarrow> \<exists>s. v = Some (VString s) \<and> s \<noteq> []"
  by (cases v rule: is_nonempty_string.cases) auto

lemma is_int_E: "is_int v \<Longrightarrow> \<exists>i. v = Some (VInt i)"
  by (cases v rule: is_int.cases) auto

lemma rule_typed_fields:
  assumes "rule_typed data"
  shows "\<exists>name spr dpr sap dap acc dir pro desc p.
           data ''name'' = Some (VString name) \<and>
           data ''source_port_range'' = Some (VString spr) \<and>
           data ''destination_port_range'' = Some (VString dpr) \<and>
           data ''source_address_prefix'' = Some (VString sap) \<and>
           data ''destination_address_prefix'' = Some (VString dap) \<and>
           data ''access'' = Some (VString acc) \<and>
           data ''direction'' = Some (VString dir) \<and>
           data ''protocol'' = Some (VString pro) \<and>
           data ''description'' = Some (VString desc) \<and>
           data ''priority'' = Some (VInt p)"
proof -
  from assms have t:
    "is_string (data ''name'')" "is_string (data ''source_port_range'')"
    "is_string (data ''destination_port_range'')" "is_string (data ''source_address_prefix'')"
    "is_string (data ''destination_address_prefix'')" "is_string (data ''access'')"
    "is_string (data ''direction'')" "is_string (data ''protocol'')"
    "is_string (data ''description'')" "is_int (data ''priority'')"
    by (simp_all add: rule_typed_def)
  from is_string_E [OF t(1)] obtain name where 1: "data ''name'' = Some (VString name)" ..
  from is_string_E [OF t(2)] obtain spr where 2: "data ''source_port_range'' = Some (VString spr)" ..
  from is_string_E [OF t(3)] obtain dpr where 3: "data ''destination_port_range'' = Some (VString dpr)" ..
  from is_string_E [OF t(4)] obtain sap where 4: "data ''source_address_prefix'' = Some (VString sap)" ..
  from is_string_E [OF t(5)] obtain dap where 5: "data ''destination_address_prefix'' = Some (VString dap)" ..
  from is_string_E [OF t(6)] obtain acc where 6: "data ''access'' = Some (VString acc)" ..
  from is_string_E [OF t(7)] obtain dir where 7: "data ''direction'' = Some (VString dir)" ..
  from is_string_E [OF t(8)] obtain pro where 8: "data ''protocol'' = Some (VString pro)" ..
  from is_string_E [OF t(9)] obtain desc where 9: "data ''description'' = Some (VString desc)" ..
  from is_int_E [OF t(10)] obtain p where 10: "data ''priority'' = Some (VInt p)" ..
  from 1 2 3 4 5 6 7 8 9 10 show ?thesis by blast
qed

lemma rule_roundtrip:
  assumes cfg: "rule_config data" and fits: "is_int32 (data ''priority'')"
  shows "\<exists>rule. expandAzureRmSecurityRule (VMap data) = Some rule \<and>
           flattenNetworkSecurityRule rule = Some (VMap data)"
proof -
  from cfg have dom: "dom data = set security_rule_fields"
    by (simp add: rule_config_def)
  from cfg have "rule_typed data"
    by (simp add: rule_config_def)
  from rule_typed_fields [OF this] obtain name spr dpr sap dap acc dir pro desc
    where s: "data ''name'' = Some (VString name)"
      "data ''source_port_range'' = Some (VString spr)"
      "data ''destination_port_range'' = Some (VString dpr)"
      "data ''source_address_prefix'' = Some (VString sap)"
      "data ''destination_address_prefix'' = Some (VString dap)"
      "data ''access'' = Some (VString acc)"
      "data ''direction'' = Some (VString dir)"
      "data ''protocol'' = Some (VString pro)"
      and d0: "data ''description'' = Some (VString desc)"
    by blast
  from cfg have "is_nonempty_string (data ''description'')"
    by (simp add: rule_config_def)
  with d0 have d: "data ''description'' = Some (VString desc)" "desc \<noteq> []"
    by simp_all
  from fits obtain p where p: "data ''priority'' = Some (VInt p)"
      "- (2 ^ 31) \<le> sint p" "sint p < 2 ^ 31"
    by (blast dest: is_int32_E)
  let ?rule = "\<lparr>rule_Name = Some name, rule_Properties = Some \<lparr>
             Description = Some desc,
             Protocol = pro,
             SourcePortRange = Some spr,
             DestinationPortRange = Some dpr,
             SourceAddressPrefix = Some sap,
             DestinationAddressPrefix = Some dap,
             Access = acc,
             Priority = Some (to_int32 p),
             Direction = dir \<rparr>\<rparr>"
  have e: "expandAzureRmSecurityRule (VMap data) = Some ?rule"
    by (simp add: expandAzureRmSecurityRule_def s d p)
  have "[''name'' \<mapsto> VString name, ''destination_address_prefix'' \<mapsto> VString dap,
         ''destination_port_range'' \<mapsto> VString dpr, ''source_address_prefix'' \<mapsto> VString sap,
         ''source_port_range'' \<mapsto> VString spr, ''priority'' \<mapsto> VInt p,
         ''access'' \<mapsto> VString acc, ''direction'' \<mapsto> VString dir,
         ''protocol'' \<mapsto> VString pro, ''description'' \<mapsto> VString desc] = data"
    (is "?m = data")
  proof
    fix k
    show "?m k = data k"
    proof (cases "k \<in> set security_rule_fields")
      case True
      then show ?thesis
        unfolding security_rule_fields_def using s d p by auto
    next
      case False
      then have "data k = None" using dom by blast
      with False show ?thesis by (simp add: security_rule_fields_def)
    qed
  qed
  moreover have "to_int (to_int32 p) = p"
    using p(2,3) by (rule to_int_to_int32)
  ultimately have "flattenNetworkSecurityRule ?rule = Some (VMap data)"
    by (simp add: flattenNetworkSecurityRule_def set_if_present_def)
  with e show ?thesis by blast
qed


lemma loops_roundtrip:
  assumes "list_all (\<lambda>data. rule_config data \<and> is_int32 (data ''priority'')) ms"
  shows "\<exists>rules. expand_loop (map VMap ms) acc = Some (acc @ rules) \<and>
           (\<forall>result. flatten_loop rules result = Some (result @ map VMap ms))"
  using assms
proof (induction ms arbitrary: acc)
  case Nil
  then show ?case by simp
next
  case (Cons data ms)
  from Cons.prems have hd: "rule_config data" "is_int32 (data ''priority'')"
    and tl: "list_all (\<lambda>data. rule_config data \<and> is_int32 (data ''priority'')) ms"
    by simp_all
  from rule_roundtrip [OF hd]
  obtain rule where r: "expandAzureRmSecurityRule (VMap data) = Some rule"
      "flattenNetworkSecurityRule rule = Some (VMap data)"
    by blast
  from Cons.IH [OF tl, of "acc @ [rule]"] obtain rules where rs: "expand_loop (map VMap ms) (acc @ [rule]) = Some ((acc @ [rule]) @ rules)"
      "\<forall>result. flatten_loop rules result = Some (result @ map VMap ms)"
    by blast
  have "expand_loop (map VMap (data # ms)) acc = Some (acc @ rule # rules)"
    using r rs by simp
  moreover have "\<forall>result. flatten_loop (rule # rules) result = Some (result @ map VMap (data # ms))"
    using r rs by simp
  ultimately show ?case by blast
qed

text \<open>
  C1, as the code has it. For every list of security-rule configurations in which each
  schema field is present with its type, the description is a non-empty string and the
  priority lies in the range of a signed 32-bit integer,
  \<^verbatim>\<open>flattenNetworkSecurityRules\<close> applied to the result of
  \<^verbatim>\<open>expandAzureRmSecurityRules\<close> returns the same list of rule attribute maps, in the same
  order, with every field value preserved.
\<close>

theorem security_rules_roundtrip:
  assumes "d_Get d ''security_rule'' = Some (VList (map VMap sgRules))"
    and "list_all rule_config sgRules"
    and "list_all (\<lambda>data. is_int32 (data ''priority'')) sgRules"
  shows "expand_then_flatten d = Some (map VMap sgRules)"
proof -
  from assms(2,3)
  have "list_all (\<lambda>data. rule_config data \<and> is_int32 (data ''priority'')) sgRules"
    by (simp add: list_all_iff)
  from loops_roundtrip [OF this, of "[]"] obtain rules
    where "expand_loop (map VMap sgRules) [] = Some rules"
      and "flatten_loop rules [] = Some (map VMap sgRules)"
    by auto
  then show ?thesis
    by (simp add: expand_then_flatten_def expandAzureRmSecurityRules_def
        flattenNetworkSecurityRules_def assms(1))
qed

lemma rule_config_example: "rule_config example_rule"
  by (auto simp: rule_config_def rule_typed_def example_rule_def security_rule_fields_def)

theorem security_rules_roundtrip_witness:
  "d_Get (nsg_data [VMap example_rule]) ''security_rule'' = Some (VList (map VMap [example_rule]))
   \<and> list_all rule_config [example_rule]
   \<and> list_all (\<lambda>data. is_int32 (data ''priority'')) [example_rule]
   \<and> expand_then_flatten (nsg_data [VMap example_rule]) = Some (map VMap [example_rule])"
proof -
  have 1: "d_Get (nsg_data [VMap example_rule]) ''security_rule'' = Some (VList (map VMap [example_rule]))"
    by (simp add: d_Get_def nsg_data_def)
  have 2: "list_all rule_config [example_rule]"
    by (simp add: rule_config_example)
  have 3: "list_all (\<lambda>data. is_int32 (data ''priority'')) [example_rule]"
    by (simp add: example_rule_def)
  from security_rules_roundtrip [OF 1 2 3] 1 2 3 show ?thesis by simp
qed

text \<open>
  C1 as stated does not bound the priority. The rule \<open>wide_priority_rule\<close> has every
  schema field and a non-empty description; its priority \<open>2 ^ 32 + 100\<close> is truncated
  by \<^verbatim>\<open>int32(...)\<close>, and the flattened rule has the priority 100.
\<close>

lemma wide_rule_config: "rule_config wide_priority_rule"
  by (auto simp: rule_config_def rule_typed_def wide_priority_rule_def example_rule_def
      security_rule_fields_def)

theorem security_rules_roundtrip_counterexample:
  "d_Get (nsg_data [VMap wide_priority_rule]) ''security_rule'' = Some (VList (map VMap [wide_priority_rule]))
   \<and> list_all rule_config [wide_priority_rule]
   \<and> expand_then_flatten (nsg_data [VMap wide_priority_rule]) = Some (map VMap [example_rule])
   \<and> expand_then_flatten (nsg_data [VMap wide_priority_rule]) \<noteq> Some (map VMap [wide_priority_rule])"
proof -
  have conv: "to_int (to_int32 4294967396) = 100"
    by (simp add: to_int_def to_int32_def)
  have flat: "expand_then_flatten (nsg_data [VMap wide_priority_rule]) = Some (map VMap [example_rule])"
    apply (simp add: expand_then_flatten_def expandAzureRmSecurityRules_def d_Get_def nsg_data_def
      expandAzureRmSecurityRule_def wide_priority_rule_def example_rule_def
      flattenNetworkSecurityRules_def flattenNetworkSecurityRule_def set_if_present_def conv)
    apply (rule ext)
    apply simp
    done
  have "wide_priority_rule ''priority'' \<noteq> example_rule ''priority''"
    by (simp add: wide_priority_rule_def example_rule_def)
  then have "wide_priority_rule \<noteq> example_rule" by metis
  with flat show ?thesis
    by (simp add: d_Get_def nsg_data_def wide_rule_config)
qed

section \<open>The error of \<^verbatim>\<open>expandAzureRmSecurityRules\<close>\<close>

lemma expand_no_error:
  "expandAzureRmSecurityRules d = Some (rules, sgErr) \<Longrightarrow> sgErr = None"
  by (auto simp: expandAzureRmSecurityRules_def split: bind_splits)

lemma expand_rule_typed:
  assumes "rule_typed data"
  shows "\<exists>rule. expandAzureRmSecurityRule (VMap data) = Some rule"
proof -
  from rule_typed_fields [OF assms] obtain name spr dpr sap dap acc dir pro desc p
    where s: "data ''name'' = Some (VString name)"
      "data ''source_port_range'' = Some (VString spr)"
      "data ''destination_port_range'' = Some (VString dpr)"
      "data ''source_address_prefix'' = Some (VString sap)"
      "data ''destination_address_prefix'' = Some (VString dap)"
      "data ''access'' = Some (VString acc)"
      "data ''direction'' = Some (VString dir)"
      "data ''protocol'' = Some (VString pro)"
      "data ''description'' = Some (VString desc)"
      "data ''priority'' = Some (VInt p)"
    by blast
  show ?thesis
    by (simp add: expandAzureRmSecurityRule_def s Let_def)
qed

lemma expand_loop_typed:
  "list_all rule_typed sgRules \<Longrightarrow> \<exists>rules. expand_loop (map VMap sgRules) acc = Some rules"
proof (induction sgRules arbitrary: acc)
  case Nil
  then show ?case by simp
next
  case (Cons data sgRules)
  then obtain rule where "expandAzureRmSecurityRule (VMap data) = Some rule"
    using expand_rule_typed [of data] by auto
  moreover from Cons obtain rules where "expand_loop (map VMap sgRules) (acc @ [rule]) = Some rules"
    by fastforce
  ultimately show ?case by simp
qed

text \<open>
  C8. \<^verbatim>\<open>expandAzureRmSecurityRules\<close> returns a nil error: on a rule list whose fields have
  their schema types it returns, with the nil error, and on no input does it return an
  error that is not nil. So the branch of \<^verbatim>\<open>resourceArmNetworkSecurityGroupCreate\<close> that
  reports "Error Building list of Network Security Group Rules" is never taken: the
  handler is equal to the handler without that branch.
\<close>

theorem expand_returns_nil_error:
  "(list_all rule_typed sgRules \<and> d_Get d ''security_rule'' = Some (VList (map VMap sgRules))
      \<longrightarrow> (\<exists>rules. expandAzureRmSecurityRules d = Some (rules, None)))
   \<and> (case expandAzureRmSecurityRules d of None \<Rightarrow> True | Some (rules, sgErr) \<Rightarrow> sgErr = None)
   \<and> resourceArmNetworkSecurityGroupCreate h d meta s =
       do {
         name \<leftarrow> assert_string (d_Get d ''name'');
         location \<leftarrow> assert_string (d_Get d ''location'');
         resGroup \<leftarrow> assert_string (d_Get d ''resource_group_name'');
         tags \<leftarrow> assert_map (d_Get d ''tags'');
         (sgRules, sgErr) \<leftarrow> expandAzureRmSecurityRules d;
         nsgCreateLocked h d meta name location resGroup tags sgRules s
       }"
proof (intro conjI impI)
  assume "list_all rule_typed sgRules \<and> d_Get d ''security_rule'' = Some (VList (map VMap sgRules))"
  then show "\<exists>rules. expandAzureRmSecurityRules d = Some (rules, None)"
    using expand_loop_typed [of sgRules "[]"]
    by (auto simp: expandAzureRmSecurityRules_def)
next
  show "case expandAzureRmSecurityRules d of None \<Rightarrow> True | Some (rules, sgErr) \<Rightarrow> sgErr = None"
    by (auto simp: expand_no_error split: option.splits)
next
  show "resourceArmNetworkSecurityGroupCreate h d meta s =
       do {
         name \<leftarrow> assert_string (d_Get d ''name'');
         location \<leftarrow> assert_string (d_Get d ''location'');
         resGroup \<leftarrow> assert_string (d_Get d ''resource_group_name'');
         tags \<leftarrow> assert_map (d_Get d ''tags'');
         (sgRules, sgErr) \<leftarrow> expandAzureRmSecurityRules d;
         nsgCreateLocked h d meta name location resGroup tags sgRules s
       }"
  proof (cases "expandAzureRmSecurityRules d")
    case None
    then show ?thesis
      by (simp add: resourceArmNetworkSecurityGroupCreate_def)
  next
    case (Some r)
    obtain rules sgErr where r: "r = (rules, sgErr)" by (cases r)
    with Some have "sgErr = None" by (simp add: expand_no_error)
    with Some r show ?thesis
      by (simp add: resourceArmNetworkSecurityGroupCreate_def)
  qed
qed

lemma rule_typed_example: "rule_typed example_rule"
  by (simp add: rule_typed_def example_rule_def)

theorem expand_returns_nil_error_witness:
  "list_all rule_typed [example_rule]
   \<and> d_Get (nsg_data [VMap example_rule]) ''security_rule'' = Some (VList (map VMap [example_rule]))
   \<and> (\<exists>rules. expandAzureRmSecurityRules (nsg_data [VMap example_rule]) = Some (rules, None))"
proof -
  have 1: "list_all rule_typed [example_rule]
     \<and> d_Get (nsg_data [VMap example_rule]) ''security_rule'' = Some (VList (map VMap [example_rule]))"
    by (simp add: rule_typed_example d_Get_def nsg_data_def)
  from expand_returns_nil_error [of "[example_rule]" "nsg_data [VMap example_rule]"] 1
  show ?thesis by blast
qed

section \<open>Update and create\<close>

text \<open>
  C10. For the network security group and for the automation account, the registered
  \<open>Update\<close> handler is the registered \<open>Create\<close> handler, so on every resource data,
  client and system an update returns what a create returns there: the same error, the
  same resource data and the same system, with the same API calls and states read in its
  log.
\<close>

theorem update_is_create:
  "Update (resourceArmNetworkSecurityGroup h) = Create (resourceArmNetworkSecurityGroup h)
   \<and> Update (resourceArmNetworkSecurityGroup h) d meta s
       = resourceArmNetworkSecurityGroupCreate h d meta s
   \<and> Update (resourceArmAutomationAccount h) = Create (resourceArmAutomationAccount h)
   \<and> Update (resourceArmAutomationAccount h) d' meta' s'
       = resourceArmAutomationAccountCreateUpdate h d' meta' s'"
  by (simp add: resourceArmNetworkSecurityGroup_def resourceArmAutomationAccount_def)

section \<open>Letter case in diffs and validation\<close>

lemma distinct_ascii_upper: "distinct ascii_upper"
  by (simp add: ascii_upper_def)

lemma length_ascii: "length ascii_upper = length ascii_lower"
  by (simp add: ascii_upper_def ascii_lower_def)

lemma lower_not_upper: "b \<in> set ascii_lower \<Longrightarrow> b \<notin> set ascii_upper"
  by (auto simp: ascii_upper_def ascii_lower_def)

lemma map_fst_zip_ascii: "map fst (zip ascii_upper ascii_lower) = ascii_upper"
  using length_ascii by (rule map_fst_zip)

lemma to_lower_char_upper:
  assumes "(a, b) \<in> set (zip ascii_upper ascii_lower)"
  shows "to_lower_char a = b" and "to_lower_char b = b"
proof -
  have "distinct (map fst (zip ascii_upper ascii_lower))"
    by (simp only: map_fst_zip_ascii distinct_ascii_upper)
  from map_of_is_SomeI [OF this assms]
  have "map_of (zip ascii_upper ascii_lower) a = Some b" .
  then show "to_lower_char a = b"
    by (simp add: to_lower_char_def)
  from assms have "b \<in> set ascii_lower"
    by (rule set_zip_rightD)
  then have "b \<notin> set ascii_upper"
    by (rule lower_not_upper)
  then have "b \<notin> set (map fst (zip ascii_upper ascii_lower))"
    by (simp add: map_fst_zip_ascii)
  then have "map_of (zip ascii_upper ascii_lower) b = None"
    unfolding map_of_eq_None_iff set_map .
  then show "to_lower_char b = b"
    by (simp add: to_lower_char_def)
qed

lemma to_lower_same_letter:
  assumes "same_letter a b"
  shows "to_lower_char a = to_lower_char b"
proof -
  from assms consider "a = b" | "(a, b) \<in> set (zip ascii_upper ascii_lower)"
    | "(b, a) \<in> set (zip ascii_upper ascii_lower)"
    unfolding same_letter_def by blast
  then show ?thesis
  proof cases
    case 1
    then show ?thesis by simp
  next
    case 2
    from to_lower_char_upper [OF this] show ?thesis by simp
  next
    case 3
    from to_lower_char_upper [OF this] show ?thesis by simp
  qed
qed

lemma ToLower_differ_only_in_case:
  "differ_only_in_case v w \<Longrightarrow> ToLower v = ToLower w"
  unfolding differ_only_in_case_def ToLower_def
  by (induction v w rule: list_all2_induct) (simp_all add: to_lower_same_letter)

lemma StringInSlice_ignore_case:
  assumes "list_ex (differ_only_in_case v) valid"
  shows "snd (StringInSlice valid True (VString v) k) = []"
proof -
  from assms have "list_ex (\<lambda>str. v = str \<or> (True \<and> ToLower v = ToLower str)) valid"
    by (auto simp: list_ex_iff dest: ToLower_differ_only_in_case)
  then show ?thesis by (simp add: StringInSlice_def)
qed

text \<open>
  C7. For the \<^verbatim>\<open>access\<close> and \<^verbatim>\<open>direction\<close> fields of a security rule and the \<^verbatim>\<open>name\<close>
  of the sku of an automation account, two values that differ only in letter case produce
  no diff, and validation accepts the allowed values (Allow and Deny, Inbound and
  Outbound, Basic) in any letter case.
\<close>

theorem case_insensitive_fields:
  "(differ_only_in_case old new \<longrightarrow>
      suppresses_diff (securityRuleSchema h ''access'') k old new d
      \<and> suppresses_diff (securityRuleSchema h ''direction'') k old new d
      \<and> suppresses_diff (skuSchema ''name'') k old new d)
   \<and> (list_ex (differ_only_in_case v) [''Allow'', ''Deny''] \<longrightarrow>
        validation_errors (securityRuleSchema h ''access'') (VString v) k = [])
   \<and> (list_ex (differ_only_in_case v) [''Inbound'', ''Outbound''] \<longrightarrow>
        validation_errors (securityRuleSchema h ''direction'') (VString v) k = [])
   \<and> (differ_only_in_case v ''Basic'' \<longrightarrow>
        validation_errors (skuSchema ''name'') (VString v) k = [])"
proof (intro conjI impI)
  assume "differ_only_in_case old new"
  then have eq: "ToLower old = ToLower new" by (rule ToLower_differ_only_in_case)
  show "suppresses_diff (securityRuleSchema h ''access'') k old new d"
    by (simp add: suppresses_diff_def securityRuleSchema_def string_field_def
        ignoreCaseDiffSuppressFunc_def eq)
  show "suppresses_diff (securityRuleSchema h ''direction'') k old new d"
    by (simp add: suppresses_diff_def securityRuleSchema_def string_field_def
        ignoreCaseDiffSuppressFunc_def eq)
  show "suppresses_diff (skuSchema ''name'') k old new d"
    by (simp add: suppresses_diff_def skuSchema_def string_field_def
        ignoreCaseDiffSuppressFunc_def eq)
next
  assume "list_ex (differ_only_in_case v) [''Allow'', ''Deny'']"
  from StringInSlice_ignore_case [OF this]
  show "validation_errors (securityRuleSchema h ''access'') (VString v) k = []"
    by (simp add: validation_errors_def securityRuleSchema_def string_field_def
        SecurityRuleAccessAllow_def SecurityRuleAccessDeny_def)
next
  assume "list_ex (differ_only_in_case v) [''Inbound'', ''Outbound'']"
  from StringInSlice_ignore_case [OF this]
  show "validation_errors (securityRuleSchema h ''direction'') (VString v) k = []"
    by (simp add: validation_errors_def securityRuleSchema_def string_field_def
        SecurityRuleDirectionInbound_def SecurityRuleDirectionOutbound_def)
next
  assume "differ_only_in_case v ''Basic''"
  then have "list_ex (differ_only_in_case v) [''Basic'']" by simp
  from StringInSlice_ignore_case [OF this]
  show "validation_errors (skuSchema ''name'') (VString v) k = []"
    by (simp add: validation_errors_def skuSchema_def string_field_def automation_Basic_def)
qed

lemma differ_examples:
  "differ_only_in_case ''Allow'' ''ALLOW''"
  "differ_only_in_case ''dEnY'' ''Deny''"
  "differ_only_in_case ''OUTBOUND'' ''Outbound''"
  "differ_only_in_case ''basic'' ''Basic''"
  by (simp_all add: differ_only_in_case_def same_letter_def ascii_upper_def ascii_lower_def)

theorem case_insensitive_fields_witness:
  "differ_only_in_case ''Allow'' ''ALLOW''
   \<and> suppresses_diff (securityRuleSchema example_env ''access'') ''access'' ''Allow'' ''ALLOW'' (nsg_data [])
   \<and> suppresses_diff (securityRuleSchema example_env ''direction'') ''access'' ''Allow'' ''ALLOW'' (nsg_data [])
   \<and> suppresses_diff (skuSchema ''name'') ''access'' ''Allow'' ''ALLOW'' (nsg_data [])
   \<and> list_ex (differ_only_in_case ''dEnY'') [''Allow'', ''Deny'']
   \<and> validation_errors (securityRuleSchema example_env ''access'') (VString ''dEnY'') ''access'' = []
   \<and> list_ex (differ_only_in_case ''OUTBOUND'') [''Inbound'', ''Outbound'']
   \<and> validation_errors (securityRuleSchema example_env ''direction'') (VString ''OUTBOUND'') ''access'' = []
   \<and> differ_only_in_case ''basic'' ''Basic''
   \<and> validation_errors (skuSchema ''name'') (VString ''basic'') ''access'' = []"
  using case_insensitive_fields [of "''Allow''" "''ALLOW''" example_env "''access''" "nsg_data []" "''dEnY''"]
    case_insensitive_fields [of "''Allow''" "''ALLOW''" example_env "''access''" "nsg_data []" "''OUTBOUND''"]
    case_insensitive_fields [of "''Allow''" "''ALLOW''" example_env "''access''" "nsg_data []" "''basic''"]
    differ_examples
  by simp

section \<open>A resource that is not found\<close>

text \<open>
  C3. For the network security group and for the automation account: when the ID parses
  and the \<open>Get\<close> call of the client fails, the \<open>Read\<close> handler clears the resource ID
  and returns nil if the response is a not-found response; for every other \<open>Get\<close> error
  it returns an error that is not nil and leaves the resource data, with its ID, as it
  was.
\<close>

theorem read_not_found:
  "(parseAzureResourceID h (Id d) = Inr azureID
      \<and> sgc_Get (secGroupClient meta) (ResourceGroup azureID)
            (path_get (Path azureID) ''networkSecurityGroups'') [] (cloud s) = ((resp, Some e), w)
    \<longrightarrow> resourceArmNetworkSecurityGroupRead h d meta s =
          Some (if ResponseWasNotFound h (sg_Response resp)
                then (None, SetId d [],
                      log_event (Call (SgGet (ResourceGroup azureID)
                        (path_get (Path azureID) ''networkSecurityGroups'') [])) (s\<lparr>cloud := w\<rparr>))
                else (Some (Errorf ''Error making Read request on Azure Network Security Group %q: %+v''
                        [AStr (path_get (Path azureID) ''networkSecurityGroups''), AErr e]), d,
                      log_event (Call (SgGet (ResourceGroup azureID)
                        (path_get (Path azureID) ''networkSecurityGroups'') [])) (s\<lparr>cloud := w\<rparr>))))
   \<and> (parseAzureResourceID h (Id d) = Inr azureID
      \<and> ac_Get (automationAccountClient meta) (ResourceGroup azureID)
            (path_get (Path azureID) ''automationAccounts'') (cloud s) = ((resp', Some e'), w')
    \<longrightarrow> resourceArmAutomationAccountRead h d meta s =
          Some (if ResponseWasNotFound h (acc_Response resp')
                then (None, SetId d [],
                      log_event (Call (AccGet (ResourceGroup azureID)
                        (path_get (Path azureID) ''automationAccounts''))) (s\<lparr>cloud := w'\<rparr>))
                else (Some (Errorf ''Error making Read request on AzureRM Automation Account '%s': %+v''
                        [AStr (path_get (Path azureID) ''automationAccounts''), AErr e']), d,
                      log_event (Call (AccGet (ResourceGroup azureID)
                        (path_get (Path azureID) ''automationAccounts''))) (s\<lparr>cloud := w'\<rparr>))))"
  by (simp add: resourceArmNetworkSecurityGroupRead_def resourceArmAutomationAccountRead_def
      sg_Get_def acc_Get_def Let_def)

lemma example_parse:
  "parseAzureResourceID example_env (Id (stored d)) =
     Inr \<lparr> ResourceGroup = ''rg1'',
           Path = [ ''networkSecurityGroups'' \<mapsto> ''nsg1'', ''automationAccounts'' \<mapsto> ''acct1'' ] \<rparr>"
  by (simp add: example_env_def stored_def)

theorem read_not_found_witness:
  "resourceArmNetworkSecurityGroupRead example_env (stored (nsg_data []))
      (example_meta (\<lambda>w. failed_group 404) None (\<lambda>w. failed_account 404) (\<lparr>http_Response = Some 404\<rparr>, None)) start
     = Some (None, SetId (stored (nsg_data [])) [], \<lparr>cloud = 1, trace = [Call (SgGet ''rg1'' ''nsg1'' [])]\<rparr>)
   \<and> resourceArmNetworkSecurityGroupRead example_env (stored (nsg_data []))
      (example_meta (\<lambda>w. failed_group 500) None (\<lambda>w. failed_account 500) (\<lparr>http_Response = Some 404\<rparr>, None)) start
     = Some (Some (Errorf ''Error making Read request on Azure Network Security Group %q: %+v''
                [AStr ''nsg1'', AErr (ErrorString ''the request failed'')]),
             stored (nsg_data []), \<lparr>cloud = 1, trace = [Call (SgGet ''rg1'' ''nsg1'' [])]\<rparr>)
   \<and> resourceArmAutomationAccountRead example_env (stored account_data)
      (example_meta (\<lambda>w. failed_group 404) None (\<lambda>w. failed_account 404) (\<lparr>http_Response = Some 404\<rparr>, None)) start
     = Some (None, SetId (stored account_data) [], \<lparr>cloud = 1, trace = [Call (AccGet ''rg1'' ''acct1'')]\<rparr>)
   \<and> resourceArmAutomationAccountRead example_env (stored account_data)
      (example_meta (\<lambda>w. failed_group 500) None (\<lambda>w. failed_account 500) (\<lparr>http_Response = Some 404\<rparr>, None)) start
     = Some (Some (Errorf ''Error making Read request on AzureRM Automation Account '%s': %+v''
                [AStr ''acct1'', AErr (ErrorString ''the request failed'')]),
             stored account_data, \<lparr>cloud = 1, trace = [Call (AccGet ''rg1'' ''acct1'')]\<rparr>)"
proof -
  let ?id = "\<lparr> ResourceGroup = ''rg1'',
           Path = [ ''networkSecurityGroups'' \<mapsto> ''nsg1'', ''automationAccounts'' \<mapsto> ''acct1'' ] \<rparr>"
  let ?m4 = "example_meta (\<lambda>w. failed_group 404) None (\<lambda>w. failed_account 404) (\<lparr>http_Response = Some 404\<rparr>, None)"
  let ?m5 = "example_meta (\<lambda>w. failed_group 500) None (\<lambda>w. failed_account 500) (\<lparr>http_Response = Some 404\<rparr>, None)"
  have g4: "sgc_Get (secGroupClient ?m4) (ResourceGroup ?id)
            (path_get (Path ?id) ''networkSecurityGroups'') [] (cloud start)
          = ((fst (failed_group 404), Some (ErrorString ''the request failed'')), 1)"
    by (simp add: example_meta_def scripted_nsg_client_def failed_group_def start_def)
  have g5: "sgc_Get (secGroupClient ?m5) (ResourceGroup ?id)
            (path_get (Path ?id) ''networkSecurityGroups'') [] (cloud start)
          = ((fst (failed_group 500), Some (ErrorString ''the request failed'')), 1)"
    by (simp add: example_meta_def scripted_nsg_client_def failed_group_def start_def)
  have a4: "ac_Get (automationAccountClient ?m4) (ResourceGroup ?id)
            (path_get (Path ?id) ''automationAccounts'') (cloud start)
          = ((fst (failed_account 404), Some (ErrorString ''the request failed'')), 1)"
    by (simp add: example_meta_def scripted_account_client_def failed_account_def start_def)
  have a5: "ac_Get (automationAccountClient ?m5) (ResourceGroup ?id)
            (path_get (Path ?id) ''automationAccounts'') (cloud start)
          = ((fst (failed_account 500), Some (ErrorString ''the request failed'')), 1)"
    by (simp add: example_meta_def scripted_account_client_def failed_account_def start_def)
  have nf: "ResponseWasNotFound example_env (sg_Response (fst (failed_group 404)))"
    "\<not> ResponseWasNotFound example_env (sg_Response (fst (failed_group 500)))"
    "ResponseWasNotFound example_env (acc_Response (fst (failed_account 404)))"
    "\<not> ResponseWasNotFound example_env (acc_Response (fst (failed_account 500)))"
    by (simp_all add: example_env_def failed_group_def failed_account_def)
  note t4 = read_not_found [of example_env "stored (nsg_data [])" ?id ?m4 start _ _ _ _ _ _]
  note t5 = read_not_found [of example_env "stored (nsg_data [])" ?id ?m5 start _ _ _ _ _ _]
  note u4 = read_not_found [of example_env "stored account_data" ?id ?m4 start _ _ _ _ _ _]
  note u5 = read_not_found [of example_env "stored account_data" ?id ?m5 start _ _ _ _ _ _]
  have 1: "resourceArmNetworkSecurityGroupRead example_env (stored (nsg_data [])) ?m4 start
     = Some (None, SetId (stored (nsg_data [])) [], \<lparr>cloud = 1, trace = [Call (SgGet ''rg1'' ''nsg1'' [])]\<rparr>)"
    using t4 [THEN conjunct1, rule_format, OF conjI, OF example_parse g4] nf
    by (simp add: path_get_def log_event_def start_def)
  have 2: "resourceArmNetworkSecurityGroupRead example_env (stored (nsg_data [])) ?m5 start
     = Some (Some (Errorf ''Error making Read request on Azure Network Security Group %q: %+v''
                [AStr ''nsg1'', AErr (ErrorString ''the request failed'')]),
             stored (nsg_data []), \<lparr>cloud = 1, trace = [Call (SgGet ''rg1'' ''nsg1'' [])]\<rparr>)"
    using t5 [THEN conjunct1, rule_format, OF conjI, OF example_parse g5] nf
    by (simp add: path_get_def log_event_def start_def)
  have 3: "resourceArmAutomationAccountRead example_env (stored account_data) ?m4 start
     = Some (None, SetId (stored account_data) [], \<lparr>cloud = 1, trace = [Call (AccGet ''rg1'' ''acct1'')]\<rparr>)"
    using u4 [THEN conjunct2, rule_format, OF conjI, OF example_parse a4] nf
    by (simp add: path_get_def log_event_def start_def)
  have 4: "resourceArmAutomationAccountRead example_env (stored account_data) ?m5 start
     = Some (Some (Errorf ''Error making Read request on AzureRM Automation Account '%s': %+v''
                [AStr ''acct1'', AErr (ErrorString ''the request failed'')]),
             stored account_data, \<lparr>cloud = 1, trace = [Call (AccGet ''rg1'' ''acct1'')]\<rparr>)"
    using u5 [THEN conjunct2, rule_format, OF conjI, OF example_parse a5] nf
    by (simp add: path_get_def log_event_def start_def)
  from 1 2 3 4 show ?thesis by blast
qed

text \<open>
  C9. When the ID parses and the \<open>Delete\<close> call of the client fails,
  \<^verbatim>\<open>resourceArmAutomationAccountDelete\<close> returns nil if the response is a not-found
  response, and an error that is not nil for every other error;
  \<^verbatim>\<open>resourceArmNetworkSecurityGroupDelete\<close> returns the error of the client as it is,
  whatever the response.
\<close>

theorem delete_not_found:
  "(parseAzureResourceID h (Id d) = Inr azureID
      \<and> ac_Delete (automationAccountClient meta) (ResourceGroup azureID)
            (path_get (Path azureID) ''automationAccounts'') (cloud s) = ((resp, Some e), w)
    \<longrightarrow> resourceArmAutomationAccountDelete h d meta s =
          Some (if ResponseWasNotFound h resp then None
                else Some (Errorf ''Error issuing AzureRM delete request for Automation Account '%s': %+v''
                        [AStr (path_get (Path azureID) ''automationAccounts''), AErr e]),
                d,
                log_event (Call (AccDelete (ResourceGroup azureID)
                  (path_get (Path azureID) ''automationAccounts''))) (s\<lparr>cloud := w\<rparr>)))
   \<and> (parseAzureResourceID h (Id d) = Inr azureID
      \<and> sgc_Delete (secGroupClient meta) (ResourceGroup azureID)
            (path_get (Path azureID) ''networkSecurityGroups'') (cloud s) = (deleteErr, w')
    \<longrightarrow> resourceArmNetworkSecurityGroupDelete h d meta s =
          Some (deleteErr, d,
                log_event (Call (SgDelete (ResourceGroup azureID)
                  (path_get (Path azureID) ''networkSecurityGroups''))) (s\<lparr>cloud := w'\<rparr>)))"
  by (simp add: resourceArmNetworkSecurityGroupDelete_def resourceArmAutomationAccountDelete_def
      sg_Delete_def acc_Delete_def Let_def)

theorem delete_not_found_witness:
  "resourceArmAutomationAccountDelete example_env (stored account_data)
      (example_meta (\<lambda>w. failed_group 404) None (\<lambda>w. failed_account 404)
         (\<lparr>http_Response = Some 404\<rparr>, Some (ErrorString ''the request failed''))) start
     = Some (None, stored account_data, \<lparr>cloud = 1, trace = [Call (AccDelete ''rg1'' ''acct1'')]\<rparr>)
   \<and> resourceArmAutomationAccountDelete example_env (stored account_data)
      (example_meta (\<lambda>w. failed_group 404) None (\<lambda>w. failed_account 404)
         (\<lparr>http_Response = Some 500\<rparr>, Some (ErrorString ''the request failed''))) start
     = Some (Some (Errorf ''Error issuing AzureRM delete request for Automation Account '%s': %+v''
                [AStr ''acct1'', AErr (ErrorString ''the request failed'')]),
             stored account_data, \<lparr>cloud = 1, trace = [Call (AccDelete ''rg1'' ''acct1'')]\<rparr>)
   \<and> resourceArmNetworkSecurityGroupDelete example_env (stored (nsg_data []))
      (example_meta (\<lambda>w. failed_group 404) (Some (ErrorString ''the group was not found''))
         (\<lambda>w. failed_account 404) (\<lparr>http_Response = Some 404\<rparr>, None)) start
     = Some (Some (ErrorString ''the group was not found''), stored (nsg_data []),
             \<lparr>cloud = 1, trace = [Call (SgDelete ''rg1'' ''nsg1'')]\<rparr>)"
proof -
  let ?id = "\<lparr> ResourceGroup = ''rg1'',
           Path = [ ''networkSecurityGroups'' \<mapsto> ''nsg1'', ''automationAccounts'' \<mapsto> ''acct1'' ] \<rparr>"
  let ?m4 = "example_meta (\<lambda>w. failed_group 404) None (\<lambda>w. failed_account 404)
         (\<lparr>http_Response = Some 404\<rparr>, Some (ErrorString ''the request failed''))"
  let ?m5 = "example_meta (\<lambda>w. failed_group 404) None (\<lambda>w. failed_account 404)
         (\<lparr>http_Response = Some 500\<rparr>, Some (ErrorString ''the request failed''))"
  let ?mg = "example_meta (\<lambda>w. failed_group 404) (Some (ErrorString ''the group was not found''))
         (\<lambda>w. failed_account 404) (\<lparr>http_Response = Some 404\<rparr>, None)"
  have d4: "ac_Delete (automationAccountClient ?m4) (ResourceGroup ?id)
            (path_get (Path ?id) ''automationAccounts'') (cloud start)
          = ((\<lparr>http_Response = Some 404\<rparr>, Some (ErrorString ''the request failed'')), 1)"
    by (simp add: example_meta_def scripted_account_client_def start_def)
  have d5: "ac_Delete (automationAccountClient ?m5) (ResourceGroup ?id)
            (path_get (Path ?id) ''automationAccounts'') (cloud start)
          = ((\<lparr>http_Response = Some 500\<rparr>, Some (ErrorString ''the request failed'')), 1)"
    by (simp add: example_meta_def scripted_account_client_def start_def)
  have dg: "sgc_Delete (secGroupClient ?mg) (ResourceGroup ?id)
            (path_get (Path ?id) ''networkSecurityGroups'') (cloud start)
          = (Some (ErrorString ''the group was not found''), 1)"
    by (simp add: example_meta_def scripted_nsg_client_def start_def)
  have nf: "ResponseWasNotFound example_env \<lparr>http_Response = Some 404\<rparr>"
    "\<not> ResponseWasNotFound example_env \<lparr>http_Response = Some 500\<rparr>"
    by (simp_all add: example_env_def)
  note t4 = delete_not_found [of example_env "stored account_data" ?id ?m4 start _ _ _ _ _]
  note t5 = delete_not_found [of example_env "stored account_data" ?id ?m5 start _ _ _ _ _]
  note tg = delete_not_found [of example_env "stored (nsg_data [])" ?id ?mg start _ _ _ _ _]
  have 1: "resourceArmAutomationAccountDelete example_env (stored account_data) ?m4 start
     = Some (None, stored account_data, \<lparr>cloud = 1, trace = [Call (AccDelete ''rg1'' ''acct1'')]\<rparr>)"
    using t4 [THEN conjunct1, rule_format, OF conjI, OF example_parse d4] nf
    by (simp add: path_get_def log_event_def start_def)
  have 2: "resourceArmAutomationAccountDelete example_env (stored account_data) ?m5 start
     = Some (Some (Errorf ''Error issuing AzureRM delete request for Automation Account '%s': %+v''
                [AStr ''acct1'', AErr (ErrorString ''the request failed'')]),
             stored account_data, \<lparr>cloud = 1, trace = [Call (AccDelete ''rg1'' ''acct1'')]\<rparr>)"
    using t5 [THEN conjunct1, rule_format, OF conjI, OF example_parse d5] nf
    by (simp add: path_get_def log_event_def start_def)
  have 3: "resourceArmNetworkSecurityGroupDelete example_env (stored (nsg_data [])) ?mg start
     = Some (Some (ErrorString ''the group was not found''), stored (nsg_data []),
             \<lparr>cloud = 1, trace = [Call (SgDelete ''rg1'' ''nsg1'')]\<rparr>)"
    using tg [THEN conjunct2, rule_format, OF conjI, OF example_parse dg]
    by (simp add: path_get_def log_event_def start_def)
  from 1 2 3 show ?thesis by blast
qed

section \<open>The log of the create handler of the network security group\<close>

lemma polled_append: "polled (xs @ ys) = polled xs @ polled ys"
  by (induction xs rule: polled.induct) simp_all

lemma polled_poll_rounds: "polled (poll_rounds resGroup name states) = states"
  by (induction states) simp_all

lemma api_poll_rounds: "list_all is_api_event (poll_rounds resGroup name states)"
  by (induction states) simp_all

lemma calls_polled: "list_all is_call evs \<Longrightarrow> polled evs = []"
  by (induction evs rule: polled.induct) simp_all

lemma calls_api: "list_all is_call evs \<Longrightarrow> list_all is_api_event evs"
proof (induction evs)
  case Nil
  then show ?case by simp
next
  case (Cons ev evs)
  then show ?case by (cases ev) simp_all
qed

lemma sg_Get_run:
  "sg_Get client resGroup name expand s =
     (fst (sgc_Get client resGroup name expand (cloud s)),
      \<lparr>cloud = snd (sgc_Get client resGroup name expand (cloud s)),
       trace = trace s @ [Call (SgGet resGroup name expand)]\<rparr>)"
  by (cases s) (simp add: sg_Get_def log_event_def split_def Let_def)

lemma sg_CreateOrUpdate_run:
  "sg_CreateOrUpdate client resGroup name sg s =
     (fst (sgc_CreateOrUpdate client resGroup name sg (cloud s)),
      \<lparr>cloud = snd (sgc_CreateOrUpdate client resGroup name sg (cloud s)),
       trace = trace s @ [Call (SgCreateOrUpdate resGroup name sg)]\<rparr>)"
  by (cases s) (simp add: sg_CreateOrUpdate_def log_event_def split_def Let_def)

lemma sg_Delete_run:
  "sg_Delete client resGroup name s =
     (fst (sgc_Delete client resGroup name (cloud s)),
      \<lparr>cloud = snd (sgc_Delete client resGroup name (cloud s)),
       trace = trace s @ [Call (SgDelete resGroup name)]\<rparr>)"
  by (cases s) (simp add: sg_Delete_def log_event_def split_def Let_def)

text \<open>What a refresh that returns has done.\<close>

lemma refresh_run:
  assumes "networkSecurityGroupStateRefreshFunc client resGroup name s = Some ((res, state, err), s')"
  shows "\<exists>resp getErr w.
      sgc_Get client resGroup name [] (cloud s) = ((resp, getErr), w) \<and>
      s' = \<lparr>cloud = w, trace = trace s @ [Call (SgGet resGroup name [])]\<rparr> \<and>
      (case getErr of
         Some e \<Rightarrow> err \<noteq> None
       | None \<Rightarrow> err = None \<and> res = Some resp \<and>
           Option.bind (sg_Properties resp) ProvisioningState = Some state)"
proof -
  obtain resp getErr w where g: "sgc_Get client resGroup name [] (cloud s) = ((resp, getErr), w)"
    by (metis surj_pair)
  show ?thesis
  proof (cases getErr)
    case None
    with assms g show ?thesis
      by (auto simp: networkSecurityGroupStateRefreshFunc_def sg_Get_run split: bind_splits)
  next
    case (Some e)
    with assms g show ?thesis
      by (auto simp: networkSecurityGroupStateRefreshFunc_def sg_Get_run)
  qed
qed


lemma nsgStateConf_simps:
  "Timeout (nsgStateConf client resGroup name) = 30 * 60"
  "poll_wait (nsgStateConf client resGroup name) = 15"
  "Pending (nsgStateConf client resGroup name) = [''Updating'', ''Creating'']"
  "Target (nsgStateConf client resGroup name) = [''Succeeded'']"
  "Refresh (nsgStateConf client resGroup name)
     = networkSecurityGroupStateRefreshFunc client resGroup name"
  by (simp_all add: nsgStateConf_def poll_wait_def)

lemma wait_loop_run:
  assumes "wait_loop elapsed (nsgStateConf client resGroup name) s = Some ((res, waitErr), s')"
  shows "\<exists>states tail.
     trace s' = trace s @ poll_rounds resGroup name states @ tail \<and>
     states_read client resGroup name (cloud s) states \<and>
     length states * 15 < (30 * 60 - elapsed) + 15 \<and>
     (case waitErr of
        None \<Rightarrow> tail = [] \<and>
          (\<exists>ps. states = ps @ [''Succeeded''] \<and> set ps \<subseteq> {''Updating'', ''Creating''})
      | Some e \<Rightarrow> ''Succeeded'' \<notin> set states \<and>
          (tail = [] \<or> tail = [Call (SgGet resGroup name [])]))"
  using assms
proof (induction n \<equiv> "(30 * 60 :: nat) - elapsed" arbitrary: elapsed s rule: less_induct)
  case less
  let ?conf = "nsgStateConf client resGroup name"
  let ?get = "Call (SgGet resGroup name [])"
  note run = less.prems [unfolded wait_loop.simps [of elapsed ?conf s] nsgStateConf_simps]
  show ?case
  proof (cases "(30 * 60 :: nat) \<le> elapsed")
    case True
    with run have "s' = s" "waitErr \<noteq> None" by auto
    then have "trace s' = trace s @ poll_rounds resGroup name [] @ []"
      "states_read client resGroup name (cloud s) []"
      "length ([] :: string list) * 15 < (30 * 60 - elapsed) + 15"
      "case waitErr of
        None \<Rightarrow> [] = ([] :: event list) \<and>
          (\<exists>ps. [] = ps @ [''Succeeded''] \<and> set ps \<subseteq> {''Updating'', ''Creating''})
      | Some e \<Rightarrow> ''Succeeded'' \<notin> set [] \<and>
          (([] :: event list) = [] \<or> [] = [?get])"
      by auto
    then show ?thesis by blast
  next
    case False
    with run obtain r st e s1
      where rf: "networkSecurityGroupStateRefreshFunc client resGroup name s
          = Some ((r, st, e), s1)"
        and k: "(case e of
            Some e \<Rightarrow> Some ((None, Some e), s1)
          | None \<Rightarrow>
              (let s = log_event (Refreshed st) s1
               in if st \<in> set [''Succeeded''] then Some ((r, None), s)
                  else if st \<in> set [''Updating'', ''Creating'']
                       then wait_loop (elapsed + 15) ?conf s
                       else Some ((None, Some (ErrorString ''unexpected state'')), s)))
          = Some ((res, waitErr), s')"
      by (auto split: bind_splits)
    from refresh_run [OF rf] obtain resp getErr w
      where g: "sgc_Get client resGroup name [] (cloud s) = ((resp, getErr), w)"
        and s1: "s1 = \<lparr>cloud = w, trace = trace s @ [?get]\<rparr>"
        and ge: "case getErr of
         Some e' \<Rightarrow> e \<noteq> None
       | None \<Rightarrow> e = None \<and> r = Some resp \<and>
           Option.bind (sg_Properties resp) ProvisioningState = Some st"
      by blast
    show ?thesis
    proof (cases e)
      case (Some err)
      with k have "s' = s1" "waitErr = Some err" by auto
      with s1 have "trace s' = trace s @ poll_rounds resGroup name [] @ [?get]"
        "states_read client resGroup name (cloud s) []"
        "length ([] :: string list) * 15 < (30 * 60 - elapsed) + 15"
        "case waitErr of
          None \<Rightarrow> [?get] = [] \<and>
            (\<exists>ps. [] = ps @ [''Succeeded''] \<and> set ps \<subseteq> {''Updating'', ''Creating''})
        | Some e \<Rightarrow> ''Succeeded'' \<notin> set [] \<and> ([?get] = [] \<or> [?get] = [?get])"
        by auto
      then show ?thesis by blast
    next
      case None
      with ge have got: "getErr = None"
        "Option.bind (sg_Properties resp) ProvisioningState = Some st"
        by (cases getErr; simp)+
      let ?s2 = "\<lparr>cloud = w, trace = trace s @ [?get, Refreshed st]\<rparr>"
      have s2: "log_event (Refreshed st) s1 = ?s2"
        by (simp add: s1 log_event_def)
      have one: "states_read client resGroup name (cloud s) [st]"
        using g got by simp
      consider (target) "st = ''Succeeded''"
        | (pending) "st \<noteq> ''Succeeded''" "st \<in> {''Updating'', ''Creating''}"
        | (other) "st \<noteq> ''Succeeded''" "st \<notin> {''Updating'', ''Creating''}"
        by blast
      then show ?thesis
      proof cases
        case target
        with k None s2 have "s' = ?s2" "waitErr = None" by (auto simp: Let_def)
        with target one False
        have "trace s' = trace s @ poll_rounds resGroup name [st] @ []"
          "states_read client resGroup name (cloud s) [st]"
          "length [st] * 15 < (30 * 60 - elapsed) + 15"
          "case waitErr of
            None \<Rightarrow> [] = ([] :: event list) \<and>
              (\<exists>ps. [st] = ps @ [''Succeeded''] \<and> set ps \<subseteq> {''Updating'', ''Creating''})
          | Some e \<Rightarrow> ''Succeeded'' \<notin> set [st] \<and> (([] :: event list) = [] \<or> [] = [?get])"
          by auto
        then show ?thesis by blast
      next
        case other
        with k None s2 have "s' = ?s2" "waitErr \<noteq> None" by (auto simp: Let_def)
        with other one False
        have "trace s' = trace s @ poll_rounds resGroup name [st] @ []"
          "states_read client resGroup name (cloud s) [st]"
          "length [st] * 15 < (30 * 60 - elapsed) + 15"
          "case waitErr of
            None \<Rightarrow> [] = ([] :: event list) \<and>
              (\<exists>ps. [st] = ps @ [''Succeeded''] \<and> set ps \<subseteq> {''Updating'', ''Creating''})
          | Some e \<Rightarrow> ''Succeeded'' \<notin> set [st] \<and> (([] :: event list) = [] \<or> [] = [?get])"
          by auto
        then show ?thesis by blast
      next
        case pending
        with k None s2
        have rec: "wait_loop (elapsed + 15) ?conf ?s2 = Some ((res, waitErr), s')"
          by (auto simp: Let_def)
        from False have "(30 * 60 :: nat) - (elapsed + 15) < 30 * 60 - elapsed" by simp
        from less.hyps [OF this rec] obtain states tail
          where ih: "trace s' = trace ?s2 @ poll_rounds resGroup name states @ tail"
            "states_read client resGroup name (cloud ?s2) states"
            "length states * 15 < (30 * 60 - (elapsed + 15)) + 15"
            "case waitErr of
              None \<Rightarrow> tail = [] \<and>
                (\<exists>ps. states = ps @ [''Succeeded''] \<and> set ps \<subseteq> {''Updating'', ''Creating''})
            | Some e \<Rightarrow> ''Succeeded'' \<notin> set states \<and> (tail = [] \<or> tail = [?get])"
          by blast
        have 1: "trace s' = trace s @ poll_rounds resGroup name (st # states) @ tail"
          using ih(1) by simp
        have 2: "states_read client resGroup name (cloud s) (st # states)"
          using g got ih(2) by simp
        have "length (st # states) = length states + 1" by simp
        with ih(3) False have 3: "length (st # states) * 15 < (30 * 60 - elapsed) + 15"
          by (simp only:) arith
        have 4: "case waitErr of
              None \<Rightarrow> tail = [] \<and>
                (\<exists>ps. st # states = ps @ [''Succeeded''] \<and> set ps \<subseteq> {''Updating'', ''Creating''})
            | Some e \<Rightarrow> ''Succeeded'' \<notin> set (st # states) \<and> (tail = [] \<or> tail = [?get])"
        proof (cases waitErr)
          case None
          with ih(4) obtain ps where "tail = []" "states = ps @ [''Succeeded'']"
            "set ps \<subseteq> {''Updating'', ''Creating''}" by auto
          with pending have "tail = []" "st # states = (st # ps) @ [''Succeeded'']"
            "set (st # ps) \<subseteq> {''Updating'', ''Creating''}" by auto
          with None show ?thesis by (simp only: option.case) blast
        next
          case (Some e')
          with ih(4) pending show ?thesis by auto
        qed
        from 1 2 3 4 show ?thesis by blast
      qed
    qed
  qed
qed


lemma nsg_read_trace:
  assumes "resourceArmNetworkSecurityGroupRead h d meta s = Some (err, d', s')"
  shows "\<exists>evs. trace s' = trace s @ evs \<and> list_all is_call evs"
proof (cases "parseAzureResourceID h (Id d)")
  case (Inl e)
  with assms have "s' = s"
    by (simp add: resourceArmNetworkSecurityGroupRead_def)
  then show ?thesis by simp
next
  case (Inr azureID)
  let ?rg = "ResourceGroup azureID"
  let ?n = "path_get (Path azureID) ''networkSecurityGroups''"
  from assms Inr have "s' = snd (sg_Get (secGroupClient meta) ?rg ?n [] s)"
    by (auto simp: resourceArmNetworkSecurityGroupRead_def Let_def split_def
        split: option.splits if_splits bind_splits)
  then have "trace s' = trace s @ [Call (SgGet ?rg ?n [])]"
    by (simp add: sg_Get_run)
  then show ?thesis by simp
qed

text \<open>The create handler after the lock is taken, along the results of its first two
  calls.\<close>

lemma create_and_wait_eq:
  assumes c: "sgc_CreateOrUpdate (secGroupClient meta) resGroup name
        (nsgRequest h name location tags sgRules) (cloud s) = (createErr, w1)"
    and g: "sgc_Get (secGroupClient meta) resGroup name [] w1 = ((read, getErr), w2)"
  shows "nsgCreateOrUpdateAndWait h d meta name location resGroup tags sgRules s =
    (case createErr of
       Some e \<Rightarrow> Some (Some e, d,
         \<lparr>cloud = w1, trace = trace s @
            [Call (SgCreateOrUpdate resGroup name (nsgRequest h name location tags sgRules))]\<rparr>)
     | None \<Rightarrow>
         (case getErr of
            Some e \<Rightarrow> Some (Some e, d,
              \<lparr>cloud = w2, trace = trace s @
                 [Call (SgCreateOrUpdate resGroup name (nsgRequest h name location tags sgRules)),
                  Call (SgGet resGroup name [])]\<rparr>)
          | None \<Rightarrow>
              (case sg_ID read of
                 None \<Rightarrow> Some (Some (Errorf
                     ''Cannot read Virtual Network %q (resource group %q) ID''
                     [AStr name, AStr resGroup]), d,
                   \<lparr>cloud = w2, trace = trace s @
                      [Call (SgCreateOrUpdate resGroup name (nsgRequest h name location tags sgRules)),
                       Call (SgGet resGroup name [])]\<rparr>)
               | Some read_ID \<Rightarrow>
                   (case WaitForState (nsgStateConf (secGroupClient meta) resGroup name)
                      \<lparr>cloud = w2, trace = trace s @
                        [Call (SgCreateOrUpdate resGroup name (nsgRequest h name location tags sgRules)),
                         Call (SgGet resGroup name [])]\<rparr> of
                      None \<Rightarrow> None
                    | Some ((res, waitErr), s3) \<Rightarrow>
                        (case waitErr of
                           Some e \<Rightarrow> Some (Some (Errorf
                               ''Error waiting for NSG (%q) to become available: %+v''
                               [AStr name, AErr e]), d, s3)
                         | None \<Rightarrow>
                             resourceArmNetworkSecurityGroupRead h (SetId d read_ID) meta s3)))))"
proof (cases createErr)
  case (Some e)
  with c show ?thesis
    by (simp add: nsgCreateOrUpdateAndWait_def Let_def sg_CreateOrUpdate_run)
next
  case None
  note created = this
  show ?thesis
  proof (cases getErr)
    case (Some e)
    with c g created show ?thesis
      by (simp add: nsgCreateOrUpdateAndWait_def Let_def sg_CreateOrUpdate_run sg_Get_run)
  next
    case None
    note got = this
    show ?thesis
    proof (cases "sg_ID read")
      case None
      with c g created got show ?thesis
        by (simp add: nsgCreateOrUpdateAndWait_def Let_def sg_CreateOrUpdate_run sg_Get_run)
    next
      case (Some read_ID)
      with c g created got show ?thesis
        by (simp add: nsgCreateOrUpdateAndWait_def Let_def sg_CreateOrUpdate_run sg_Get_run
            split: option.splits prod.splits)
    qed
  qed
qed


lemma wait_run:
  assumes "WaitForState (nsgStateConf client resGroup name) s = Some ((res, waitErr), s')"
  shows "\<exists>states tail.
     trace s' = trace s @ poll_rounds resGroup name states @ tail \<and>
     states_read client resGroup name (cloud s) states \<and>
     length states * 15 < 30 * 60 \<and>
     (case waitErr of
        None \<Rightarrow> tail = [] \<and>
          (\<exists>ps. states = ps @ [''Succeeded''] \<and> set ps \<subseteq> {''Updating'', ''Creating''})
      | Some e \<Rightarrow> ''Succeeded'' \<notin> set states \<and>
          (tail = [] \<or> tail = [Call (SgGet resGroup name [])]))"
proof -
  from assms have "wait_loop 15 (nsgStateConf client resGroup name) s = Some ((res, waitErr), s')"
    by (simp add: WaitForState_def nsgStateConf_simps)
  from wait_loop_run [OF this] show ?thesis by simp
qed

lemma create_and_wait_trace:
  assumes run: "nsgCreateOrUpdateAndWait h d meta name location resGroup tags sgRules s
      = Some (err, d', s')"
  shows "\<exists>sg evs. trace s' = trace s @ Call (SgCreateOrUpdate resGroup name sg) # evs \<and>
          list_all is_api_event evs"
proof -
  let ?client = "secGroupClient meta"
  let ?sg = "nsgRequest h name location tags sgRules"
  let ?create = "Call (SgCreateOrUpdate resGroup name ?sg)"
  let ?get = "Call (SgGet resGroup name [])"
  obtain createErr w1
    where c: "sgc_CreateOrUpdate ?client resGroup name ?sg (cloud s) = (createErr, w1)"
    by (metis surj_pair)
  obtain read getErr w2 where g: "sgc_Get ?client resGroup name [] w1 = ((read, getErr), w2)"
    by (metis surj_pair)
  let ?s2 = "\<lparr>cloud = w2, trace = trace s @ [?create, ?get]\<rparr>"
  note eq = run [unfolded create_and_wait_eq [OF c g]]
  have "\<exists>evs. trace s' = trace s @ ?create # evs \<and> list_all is_api_event evs"
  proof (cases "createErr \<noteq> None \<or> getErr \<noteq> None \<or> sg_ID read = None")
    case True
    with eq have "trace s' = trace s @ ?create # [] \<or> trace s' = trace s @ ?create # [?get]"
      by (auto split: option.splits)
    moreover have "list_all is_api_event []" "list_all is_api_event [?get]" by simp_all
    ultimately show ?thesis by blast
  next
    case False
    then obtain read_ID where ok: "createErr = None" "getErr = None" "sg_ID read = Some read_ID"
      by auto
    with eq obtain res waitErr s3
      where w: "WaitForState (nsgStateConf ?client resGroup name) ?s2 = Some ((res, waitErr), s3)"
        and k: "(case waitErr of
                   Some e \<Rightarrow> Some (Some (Errorf
                       ''Error waiting for NSG (%q) to become available: %+v''
                       [AStr name, AErr e]), d, s3)
                 | None \<Rightarrow> resourceArmNetworkSecurityGroupRead h (SetId d read_ID) meta s3)
              = Some (err, d', s')"
      by (auto split: option.splits prod.splits)
    from wait_run [OF w] obtain states tail
      where t3: "trace s3 = trace ?s2 @ poll_rounds resGroup name states @ tail"
        and tl: "case waitErr of
            None \<Rightarrow> tail = [] \<and>
              (\<exists>ps. states = ps @ [''Succeeded''] \<and> set ps \<subseteq> {''Updating'', ''Creating''})
          | Some e \<Rightarrow> ''Succeeded'' \<notin> set states \<and> (tail = [] \<or> tail = [?get])"
      by blast
    from tl have "tail = [] \<or> tail = [?get]"
      by (cases waitErr) simp_all
    then have api: "list_all is_api_event (poll_rounds resGroup name states @ tail)"
      by (auto simp: api_poll_rounds)
    show ?thesis
    proof (cases waitErr)
      case (Some e)
      with k have "s' = s3" by simp
      with t3 have "trace s' = trace s @ ?create # (?get # poll_rounds resGroup name states @ tail)"
        by simp
      moreover from api have "list_all is_api_event (?get # poll_rounds resGroup name states @ tail)"
        by simp
      ultimately show ?thesis by blast
    next
      case None
      with k have "resourceArmNetworkSecurityGroupRead h (SetId d read_ID) meta s3
          = Some (err, d', s')" by simp
      from nsg_read_trace [OF this] obtain revs where revs: "trace s' = trace s3 @ revs"
        "list_all is_call revs" by blast
      from t3 revs(1)
      have "trace s' = trace s @ ?create # (?get # (poll_rounds resGroup name states @ tail) @ revs)"
        by simp
      moreover from api calls_api [OF revs(2)]
      have "list_all is_api_event (?get # (poll_rounds resGroup name states @ tail) @ revs)"
        by simp
      ultimately show ?thesis by blast
    qed
  qed
  then show ?thesis by blast
qed

lemma assert_string_Some: "assert_string v = Some s \<Longrightarrow> v = Some (VString s)"
  by (cases v rule: assert_string.cases) simp_all

lemma assert_map_Some: "assert_map v = Some m \<Longrightarrow> v = Some (VMap m)"
  by (cases v rule: assert_map.cases) simp_all

lemma create_trace:
  assumes run: "resourceArmNetworkSecurityGroupCreate h d meta s = Some (err, d', s')"
  shows "\<exists>name resGroup sg evs.
          d_Get d ''name'' = Some (VString name) \<and>
          trace s' = trace s @ [Lock name networkSecurityGroupResourceName,
                                Call (SgCreateOrUpdate resGroup name sg)]
                       @ evs @ [Unlock name networkSecurityGroupResourceName] \<and>
          list_all is_api_event evs"
proof -
  from run obtain name location resGroup tags sgRules sgErr
    where a: "assert_string (d_Get d ''name'') = Some name"
      and e: "expandAzureRmSecurityRules d = Some (sgRules, sgErr)"
      and k: "(case sgErr of
         Some e \<Rightarrow>
           Some (Some (Errorf ''Error Building list of Network Security Group Rules: %+v''
             [AErr e]), d, s)
       | None \<Rightarrow> nsgCreateLocked h d meta name location resGroup tags sgRules s)
        = Some (err, d', s')"
    unfolding resourceArmNetworkSecurityGroupCreate_def
    by (auto split: bind_splits)
  from e have "sgErr = None" by (rule expand_no_error)
  with k have "nsgCreateLocked h d meta name location resGroup tags sgRules s = Some (err, d', s')"
    by simp
  then obtain s2 where b: "nsgCreateOrUpdateAndWait h d meta name location resGroup tags sgRules
        (azureRMLockByName name networkSecurityGroupResourceName s) = Some (err, d', s2)"
      and u: "s' = azureRMUnlockByName name networkSecurityGroupResourceName s2"
    unfolding nsgCreateLocked_def by (auto simp: Let_def split: bind_splits)
  from create_and_wait_trace [OF b] obtain sg evs
    where t: "trace s2 = trace (azureRMLockByName name networkSecurityGroupResourceName s)
                 @ Call (SgCreateOrUpdate resGroup name sg) # evs"
      and r: "list_all is_api_event evs"
    by blast
  from a have n: "d_Get d ''name'' = Some (VString name)"
    by (rule assert_string_Some)
  from t u have "trace s' = trace s @ [Lock name networkSecurityGroupResourceName,
                                Call (SgCreateOrUpdate resGroup name sg)]
                       @ evs @ [Unlock name networkSecurityGroupResourceName]"
    by (simp add: azureRMLockByName_def azureRMUnlockByName_def log_event_def)
  with n r show ?thesis by blast
qed

lemmas nsg_run_defs =
  resourceArmNetworkSecurityGroupCreate_def nsgCreateLocked_def nsgCreateOrUpdateAndWait_def
  nsgRequest_def nsgStateConf_def WaitForState_def poll_wait_def wait_loop.simps
  networkSecurityGroupStateRefreshFunc_def resourceArmNetworkSecurityGroupRead_def
  run_meta_def example_meta_def scripted_nsg_client_def provisioning_script_def example_group_def
  example_env_def nsg_data_def d_Get_def d_Set_def SetId_def expandAzureRmSecurityRules_def
  expandAzureRmSecurityRule_def example_rule_def sg_Get_def sg_CreateOrUpdate_def log_event_def
  azureRMLockByName_def azureRMUnlockByName_def start_def flattenNetworkSecurityRules_def Let_def
  path_get_def ptr_val_def networkSecurityGroupResourceName_def

lemma example_create_run:
  "map_option (\<lambda>(err, d, s). (err, Id d, polled (trace s)))
     (resourceArmNetworkSecurityGroupCreate example_env (nsg_data [VMap example_rule]) run_meta start)
   = Some (None,
       ''/subscriptions/0/resourceGroups/rg1/providers/Microsoft.Network/networkSecurityGroups/nsg1'',
       [''Creating'', ''Updating'', ''Succeeded''])"
  by (simp add: nsg_run_defs)

lemma example_delete_run:
  "resourceArmNetworkSecurityGroupDelete example_env (stored (nsg_data [])) run_meta start
     = Some (None, stored (nsg_data []), \<lparr>cloud = 1, trace = [Call (SgDelete ''rg1'' ''nsg1'')]\<rparr>)"
  by (simp add: resourceArmNetworkSecurityGroupDelete_def run_meta_def example_meta_def
      scripted_nsg_client_def example_env_def stored_def sg_Delete_def log_event_def start_def
      path_get_def Let_def)

text \<open>
  C5, as the code has it. Whenever the create (and update) handler of a network security
  group returns, it has taken the named lock of the group's name and the resource type
  \<open>''azurerm_network_security_group''\<close> before its first API call and released it last:
  all its API calls and refreshes lie between the two. The delete handler issues its
  \<open>Delete\<close> call without taking the lock. That the lock keeps two holders apart is the
  lock's own contract and is not part of this statement.
\<close>

theorem create_takes_named_lock:
  "(resourceArmNetworkSecurityGroupCreate h d meta s = Some (err, d', s') \<longrightarrow>
      (\<exists>name resGroup sg evs.
          d_Get d ''name'' = Some (VString name) \<and>
          trace s' = trace s @ [Lock name ''azurerm_network_security_group'',
                                Call (SgCreateOrUpdate resGroup name sg)]
                       @ evs @ [Unlock name ''azurerm_network_security_group''] \<and>
          list_all is_api_event evs))
   \<and> (resourceArmNetworkSecurityGroupDelete h d meta t = Some (err2, d2, t') \<longrightarrow>
      (\<exists>evs. trace t' = trace t @ evs \<and> list_all is_call evs))"
proof (intro conjI impI)
  assume "resourceArmNetworkSecurityGroupCreate h d meta s = Some (err, d', s')"
  from create_trace [OF this]
  show "\<exists>name resGroup sg evs.
          d_Get d ''name'' = Some (VString name) \<and>
          trace s' = trace s @ [Lock name ''azurerm_network_security_group'',
                                Call (SgCreateOrUpdate resGroup name sg)]
                       @ evs @ [Unlock name ''azurerm_network_security_group''] \<and>
          list_all is_api_event evs"
    unfolding networkSecurityGroupResourceName_def by blast
next
  assume del: "resourceArmNetworkSecurityGroupDelete h d meta t = Some (err2, d2, t')"
  show "\<exists>evs. trace t' = trace t @ evs \<and> list_all is_call evs"
  proof (cases "parseAzureResourceID h (Id d)")
    case (Inl e)
    with del have "t' = t" by (simp add: resourceArmNetworkSecurityGroupDelete_def)
    then show ?thesis by simp
  next
    case (Inr azureID)
    obtain deleteErr t1 where g: "sg_Delete (secGroupClient meta) (ResourceGroup azureID)
        (path_get (Path azureID) ''networkSecurityGroups'') t = (deleteErr, t1)"
      by (metis surj_pair)
    from del Inr g have "t' = t1"
      by (simp add: resourceArmNetworkSecurityGroupDelete_def Let_def)
    moreover from g have "trace t1 = trace t @ [Call (SgDelete (ResourceGroup azureID)
        (path_get (Path azureID) ''networkSecurityGroups''))]"
      by (auto simp: sg_Delete_run)
    ultimately show ?thesis by simp
  qed
qed

theorem create_takes_named_lock_witness:
  "(\<exists>err d' s' resGroup sg evs. resourceArmNetworkSecurityGroupCreate example_env
        (nsg_data [VMap example_rule]) run_meta start = Some (err, d', s')
      \<and> trace s' = [Lock ''nsg1'' ''azurerm_network_security_group'',
                     Call (SgCreateOrUpdate resGroup ''nsg1'' sg)]
                    @ evs @ [Unlock ''nsg1'' ''azurerm_network_security_group'']
      \<and> list_all is_api_event evs)
   \<and> (\<exists>err d' s'. resourceArmNetworkSecurityGroupDelete example_env (stored (nsg_data []))
        run_meta start = Some (err, d', s')
      \<and> list_all is_call (trace s'))"
proof -
  from example_create_run obtain d1 s1
    where run1: "resourceArmNetworkSecurityGroupCreate example_env (nsg_data [VMap example_rule])
        run_meta start = Some (None, d1, s1)"
    by (auto simp: map_option_eq_Some)
  have n: "d_Get (nsg_data [VMap example_rule]) ''name'' = Some (VString ''nsg1'')"
    by (simp add: d_Get_def nsg_data_def)
  from create_takes_named_lock [THEN conjunct1, rule_format, OF run1] n
  have 1: "\<exists>resGroup sg evs.
      trace s1 = [Lock ''nsg1'' ''azurerm_network_security_group'',
                     Call (SgCreateOrUpdate resGroup ''nsg1'' sg)]
                    @ evs @ [Unlock ''nsg1'' ''azurerm_network_security_group'']
      \<and> list_all is_api_event evs"
    by (auto simp: start_def)
  from create_takes_named_lock [THEN conjunct2, rule_format, OF example_delete_run]
  have 2: "list_all is_call (trace \<lparr>cloud = 1 :: nat, trace = [Call (SgDelete ''rg1'' ''nsg1'')]\<rparr>)"
    by (auto simp: start_def)
  from run1 1 example_delete_run 2 show ?thesis by blast
qed

text \<open>
  C5 as stated says that the delete handler takes the named lock as well. On the example
  client the log of \<^verbatim>\<open>resourceArmNetworkSecurityGroupDelete\<close> is the \<open>Delete\<close> call alone.
\<close>

theorem delete_takes_lock_counterexample:
  "resourceArmNetworkSecurityGroupDelete example_env (stored (nsg_data [])) run_meta start
     = Some (None, stored (nsg_data []), \<lparr>cloud = 1, trace = [Call (SgDelete ''rg1'' ''nsg1'')]\<rparr>)
   \<and> Lock ''nsg1'' ''azurerm_network_security_group'' \<notin> set [Call (SgDelete ''rg1'' ''nsg1'')]"
  by (simp add: example_delete_run)

section \<open>The wait for the provisioning of a network security group\<close>





section \<open>Creating an automation account\<close>









end
